theory Spec2Isabelle
  imports Complex_Main "HOL-Library.Word"
begin

unbundle bit_operations_syntax

section \<open>The integer 4-lane type (simd\_sse.h, class Col4)\<close>

text \<open>
  A \<open>__m128i\<close> register is read by the code as four 32-bit lanes (\<open>epi32\<close>
  intrinsics), as eight 16-bit lanes (\<open>epi16\<close>) or as sixteen bytes (\<open>epi8\<close>).
  It is modelled by its four 32-bit lanes, lane 0 first; the narrower views are computed
  from them. \<open>Col4\<close> wraps one register (\<open>m_v\<close>).
\<close>

datatype m128i = M128i (e0: "32 word") (e1: "32 word") (e2: "32 word") (e3: "32 word")

type_synonym Col4 = m128i

definition lanes :: "m128i \<Rightarrow> 32 word list" where
  "lanes v = [e0 v, e1 v, e2 v, e3 v]"

definition mm_set1_epi32 :: "32 word \<Rightarrow> m128i" where
  "mm_set1_epi32 s = M128i s s s s"

definition mm_add_epi32 :: "m128i \<Rightarrow> m128i \<Rightarrow> m128i" where
  "mm_add_epi32 a b = M128i (e0 a + e0 b) (e1 a + e1 b) (e2 a + e2 b) (e3 a + e3 b)"

definition mm_sub_epi32 :: "m128i \<Rightarrow> m128i \<Rightarrow> m128i" where
  "mm_sub_epi32 a b = M128i (e0 a - e0 b) (e1 a - e1 b) (e2 a - e2 b) (e3 a - e3 b)"

text \<open>The two 16-bit halves of a 32-bit lane.\<close>

definition lo16 :: "32 word \<Rightarrow> 16 word" where
  "lo16 x = ucast x"

definition hi16 :: "32 word \<Rightarrow> 16 word" where
  "hi16 x = ucast (drop_bit 16 x)"

text \<open>
  \<open>_mm_mullo_epi16\<close> multiplies the eight 16-bit lanes pairwise and keeps the low 16 bits
  of each product. On one 32-bit lane: the low halves are multiplied into the low half,
  the high halves into the high half.
\<close>

definition mullo16 :: "32 word \<Rightarrow> 32 word \<Rightarrow> 32 word" where
  "mullo16 x y = push_bit 16 (ucast (hi16 x * hi16 y)) OR ucast (lo16 x * lo16 y)"

definition mm_mullo_epi16 :: "m128i \<Rightarrow> m128i \<Rightarrow> m128i" where
  "mm_mullo_epi16 a b =
     M128i (mullo16 (e0 a) (e0 b)) (mullo16 (e1 a) (e1 b))
           (mullo16 (e2 a) (e2 b)) (mullo16 (e3 a) (e3 b))"

text \<open>\<open>_mm_shuffle_epi32\<close> with the selector \<open>SQUISH_SSE_SHUF(x, y, z, w)\<close>.\<close>

definition lane :: "m128i \<Rightarrow> nat \<Rightarrow> 32 word" where
  "lane v i = (if i = 0 then e0 v else if i = 1 then e1 v else if i = 2 then e2 v else e3 v)"

definition mm_shuffle_epi32 :: "m128i \<Rightarrow> nat \<Rightarrow> nat \<Rightarrow> nat \<Rightarrow> nat \<Rightarrow> m128i" where
  "mm_shuffle_epi32 v x y z w = M128i (lane v x) (lane v y) (lane v z) (lane v w)"

definition SQUISH_SSE_SWAP64 :: "m128i \<Rightarrow> m128i" where
  "SQUISH_SSE_SWAP64 v = mm_shuffle_epi32 v 2 3 0 1"

definition SQUISH_SSE_SWAP32 :: "m128i \<Rightarrow> m128i" where
  "SQUISH_SSE_SWAP32 v = mm_shuffle_epi32 v 3 2 1 0"

text \<open>\<open>_mm_cmpeq_epi32\<close>: a lane of ones where the lanes are equal, of zeros elsewhere.\<close>

definition cmpeq32 :: "32 word \<Rightarrow> 32 word \<Rightarrow> 32 word" where
  "cmpeq32 x y = (if x = y then 0xFFFFFFFF else 0)"

definition mm_cmpeq_epi32 :: "m128i \<Rightarrow> m128i \<Rightarrow> m128i" where
  "mm_cmpeq_epi32 a b =
     M128i (cmpeq32 (e0 a) (e0 b)) (cmpeq32 (e1 a) (e1 b))
           (cmpeq32 (e2 a) (e2 b)) (cmpeq32 (e3 a) (e3 b))"

text \<open>
  \<open>_mm_movemask_epi8\<close>: bit \<open>n\<close> of the result is the top bit of byte \<open>n\<close> of the
  register, bytes counted from the low end of lane 0.
\<close>

definition bytes_msb :: "32 word \<Rightarrow> bool list" where
  "bytes_msb x = [bit x 7, bit x 15, bit x 23, bit x 31]"

definition mm_movemask_epi8 :: "m128i \<Rightarrow> int" where
  "mm_movemask_epi8 v =
     horner_sum of_bool 2
       (bytes_msb (e0 v) @ bytes_msb (e1 v) @ bytes_msb (e2 v) @ bytes_msb (e3 v))"

text \<open>\<open>Col4::A()\<close> is \<open>_mm_extract_epi16(m_v, 6)\<close>: the low half of lane 3, zero-extended.\<close>

definition A :: "Col4 \<Rightarrow> int" where
  "A c = uint (lo16 (e3 c))"

text \<open>\<open>operator*\<close> on two \<open>Col4\<close>, and on a \<open>Col4\<close> and an \<open>int\<close>.\<close>

definition Col4_mul :: "Col4 \<Rightarrow> Col4 \<Rightarrow> Col4" where
  "Col4_mul left right = mm_mullo_epi16 left right"

definition Col4_mul_int :: "Col4 \<Rightarrow> 32 word \<Rightarrow> Col4" where
  "Col4_mul_int left right = mm_mullo_epi16 left (mm_set1_epi32 right)"

text \<open>\<open>MultiplyAdd\<close> ("Returns a*b + c") and \<open>NegativeMultiplySubtract\<close>
  ("Returns -( a*b - c )").\<close>

definition MultiplyAdd :: "Col4 \<Rightarrow> Col4 \<Rightarrow> Col4 \<Rightarrow> Col4" where
  "MultiplyAdd a b c = mm_add_epi32 (mm_mullo_epi16 a b) c"

definition NegativeMultiplySubtract :: "Col4 \<Rightarrow> Col4 \<Rightarrow> Col4 \<Rightarrow> Col4" where
  "NegativeMultiplySubtract a b c = mm_sub_epi32 c (mm_mullo_epi16 a b)"

text \<open>\<open>HorizontalAdd\<close>, the branch without \<open>_mm_hadd_epi32\<close>: two shuffles and adds.\<close>

definition HorizontalAdd :: "Col4 \<Rightarrow> Col4" where
  "HorizontalAdd a =
     (let res = a;
          res = mm_add_epi32 res (SQUISH_SSE_SWAP64 res);
          res = mm_add_epi32 res (SQUISH_SSE_SWAP32 res)
      in res)"

definition Dot :: "Col4 \<Rightarrow> Col4 \<Rightarrow> Col4" where
  "Dot left right = HorizontalAdd (mm_mullo_epi16 left right)"

definition CompareAnyLessThan :: "Col4 \<Rightarrow> Col4 \<Rightarrow> bool" where
  "CompareAnyLessThan left right =
     (let bits = mm_cmpeq_epi32 left right;
          val = mm_movemask_epi8 bits
      in val \<noteq> 0x0000)"

definition CompareAllEqualTo :: "Col4 \<Rightarrow> Col4 \<Rightarrow> bool" where
  "CompareAllEqualTo left right =
     (let bits = mm_cmpeq_epi32 left right;
          val = mm_movemask_epi8 bits
      in val = 0xFFFF)"

text \<open>
  For the statement about products: the lanes of a value all lie in \<open>[0, 2^16)\<close>, the
  exact product of two lanes reduced modulo \<open>2^16\<close>, and the 32-bit product of the lanes.
\<close>

definition lanes16 :: "Col4 \<Rightarrow> bool" where
  "lanes16 c = (unat (e0 c) < 2 ^ 16 \<and> unat (e1 c) < 2 ^ 16 \<and> unat (e2 c) < 2 ^ 16 \<and> unat (e3 c) < 2 ^ 16)"

definition prod_mod16 :: "32 word \<Rightarrow> 32 word \<Rightarrow> 32 word" where
  "prod_mod16 x y = word_of_nat ((unat x * unat y) mod 2 ^ 16)"

definition products_mod16 :: "Col4 \<Rightarrow> Col4 \<Rightarrow> Col4" where
  "products_mod16 a b =
     M128i (prod_mod16 (e0 a) (e0 b)) (prod_mod16 (e1 a) (e1 b))
           (prod_mod16 (e2 a) (e2 b)) (prod_mod16 (e3 a) (e3 b))"

definition products32 :: "Col4 \<Rightarrow> Col4 \<Rightarrow> Col4" where
  "products32 a b = M128i (e0 a * e0 b) (e1 a * e1 b) (e2 a * e2 b) (e3 a * e3 b)"

definition products_below_2_16 :: "Col4 \<Rightarrow> Col4 \<Rightarrow> bool" where
  "products_below_2_16 a b =
     (unat (e0 a) * unat (e0 b) < 2 ^ 16 \<and> unat (e1 a) * unat (e1 b) < 2 ^ 16 \<and>
      unat (e2 a) * unat (e2 b) < 2 ^ 16 \<and> unat (e3 a) * unat (e3 b) < 2 ^ 16)"

section \<open>The maths (maths.cpp)\<close>

subsection \<open>Floats\<close>

text \<open>
  A \<open>float\<close> is modelled by the real number it denotes (infinities and NaN are left
  out). What the operations return is a parameter of the eigensolver: the four arithmetic
  operations, \<open>Vec4::sqrt\<close> and \<open>Vec4::cbrt\<close> (simd\_sse.h; the cube root there is an
  estimate refined by one step, built on \<open>_mm_rcp_ss\<close>), and \<open>std::atan2\<close>, \<open>std::cos\<close>,
  \<open>std::sin\<close> and \<open>sqrt\<close> of the C library.
\<close>

record float_math =
  fadd :: "real \<Rightarrow> real \<Rightarrow> real"
  fsub :: "real \<Rightarrow> real \<Rightarrow> real"
  fmul :: "real \<Rightarrow> real \<Rightarrow> real"
  fdiv :: "real \<Rightarrow> real \<Rightarrow> real"
  vec4_sqrt :: "real \<Rightarrow> real"
  vec4_cbrt :: "real \<Rightarrow> real"
  std_atan2 :: "real \<Rightarrow> real \<Rightarrow> real"
  std_cos :: "real \<Rightarrow> real"
  std_sin :: "real \<Rightarrow> real"
  std_sqrt :: "real \<Rightarrow> real"

text \<open>Exact arithmetic: every operation returns the mathematical result.\<close>

definition atan2 :: "real \<Rightarrow> real \<Rightarrow> real" where
  "atan2 y x =
     (if 0 < x then arctan (y / x)
      else if x < 0 then (if 0 \<le> y then arctan (y / x) + pi else arctan (y / x) - pi)
      else if 0 < y then pi / 2 else if y < 0 then - pi / 2 else 0)"

definition exact_math :: float_math where
  "exact_math =
     \<lparr>fadd = (+), fsub = (-), fmul = (*), fdiv = (/),
      vec4_sqrt = sqrt, vec4_cbrt = root 3, std_atan2 = atan2,
      std_cos = cos, std_sin = sin, std_sqrt = sqrt\<rparr>"

text \<open>
  IEEE-754 single precision, round to nearest, ties to even, in the normal range (no
  overflow, no subnormals): \<open>float32 x\<close> is the float nearest to \<open>x\<close>. \<open>fexp x\<close> is
  the exponent \<open>e\<close> with \<open>2^e \<le> |x| < 2^(e+1)\<close>.
\<close>

fun bit_length :: "nat \<Rightarrow> nat" where
  "bit_length n = (if n = 0 then 0 else Suc (bit_length (n div 2)))"

definition fexp :: "real \<Rightarrow> int" where
  "fexp x =
     (if 1 \<le> \<bar>x\<bar> then int (bit_length (nat \<lfloor>\<bar>x\<bar>\<rfloor>)) - 1
      else - int (bit_length (nat (\<lceil>1 / \<bar>x\<bar>\<rceil> - 1))))"

definition round_even :: "real \<Rightarrow> int" where
  "round_even y =
     (let f = \<lfloor>y\<rfloor>; d = y - of_int f
      in if d < 1 / 2 then f else if 1 / 2 < d then f + 1
         else if even f then f else f + 1)"

definition float32 :: "real \<Rightarrow> real" where
  "float32 x =
     (if x = 0 then 0
      else (let u = 2 powi (fexp x - 23)
            in sgn x * of_int (round_even (\<bar>x\<bar> / u)) * u))"


definition FLT_EPSILON :: real where
  "FLT_EPSILON = 1 / 2 ^ 23"

definition FLT_MAX :: real where
  "FLT_MAX = (2 - 1 / 2 ^ 23) * 2 ^ 127"

subsection \<open>The principal component of a symmetric 3x3 matrix\<close>

datatype Vec3 = Vec3 real real real

text \<open>\<open>Sym3x3\<close> holds the six floats of the upper triangle; \<open>elem s i\<close> is \<open>s[i]\<close>.\<close>

datatype Sym3x3 = Sym3x3 real real real real real real

fun elem :: "Sym3x3 \<Rightarrow> nat \<Rightarrow> real" where
  "elem (Sym3x3 x0 x1 x2 x3 x4 x5) i =
     (if i = 0 then x0 else if i = 1 then x1 else if i = 2 then x2
      else if i = 3 then x3 else if i = 4 then x4 else x5)"

text \<open>
  The loop "find the largest component": \<open>mc\<close> and \<open>mi\<close> start at component 0 and a
  later component replaces them when it is strictly larger in absolute value.
\<close>

definition largest_component :: "Sym3x3 \<Rightarrow> nat" where
  "largest_component u =
     snd (foldl (\<lambda>(mc, mi) i. let c = \<bar>elem u i\<bar> in if c > mc then (c, i) else (mc, mi))
            (\<bar>elem u 0\<bar>, 0) [1, 2, 3, 4, 5])"

definition GetMultiplicity1Evector :: "float_math \<Rightarrow> Sym3x3 \<Rightarrow> real \<Rightarrow> Vec3" where
  "GetMultiplicity1Evector fm smatrix evalue =
     (let m = Sym3x3 (fsub fm (elem smatrix 0) evalue) (elem smatrix 1) (elem smatrix 2)
                     (fsub fm (elem smatrix 3) evalue) (elem smatrix 4)
                     (fsub fm (elem smatrix 5) evalue);
          u = Sym3x3
                (fsub fm (fmul fm (elem m 3) (elem m 5)) (fmul fm (elem m 4) (elem m 4)))
                (fsub fm (fmul fm (elem m 2) (elem m 4)) (fmul fm (elem m 1) (elem m 5)))
                (fsub fm (fmul fm (elem m 1) (elem m 4)) (fmul fm (elem m 2) (elem m 3)))
                (fsub fm (fmul fm (elem m 0) (elem m 5)) (fmul fm (elem m 2) (elem m 2)))
                (fsub fm (fmul fm (elem m 1) (elem m 2)) (fmul fm (elem m 4) (elem m 0)))
                (fsub fm (fmul fm (elem m 0) (elem m 3)) (fmul fm (elem m 1) (elem m 1)));
          mi = largest_component u
      in if mi = 0 then Vec3 (elem u 0) (elem u 1) (elem u 2)
         else if mi = 1 \<or> mi = 3 then Vec3 (elem u 1) (elem u 3) (elem u 4)
         else Vec3 (elem u 2) (elem u 4) (elem u 5))"

definition GetMultiplicity2Evector :: "float_math \<Rightarrow> Sym3x3 \<Rightarrow> real \<Rightarrow> Vec3" where
  "GetMultiplicity2Evector fm smatrix evalue =
     (let m = Sym3x3 (fsub fm (elem smatrix 0) evalue) (elem smatrix 1) (elem smatrix 2)
                     (fsub fm (elem smatrix 3) evalue) (elem smatrix 4)
                     (fsub fm (elem smatrix 5) evalue);
          mi = largest_component m
      in if mi = 0 \<or> mi = 1 then Vec3 (- elem m 1) (elem m 0) 0
         else if mi = 2 then Vec3 (elem m 2) 0 (- elem m 0)
         else if mi = 3 \<or> mi = 4 then Vec3 0 (- elem m 4) (elem m 3)
         else Vec3 0 (- elem m 5) (elem m 4))"

text \<open>
  The locals of \<open>ComputePrincipleComponent\<close>, each with the operations in the order C++
  evaluates them (left to right): the cubic coefficients \<open>c0\<close>, \<open>c1\<close>, \<open>c2\<close>, the
  quadratic coefficients \<open>a\<close> and \<open>b\<close>, and the root count check \<open>Q\<close>.
\<close>

definition cubic_c0 :: "float_math \<Rightarrow> Sym3x3 \<Rightarrow> real" where
  "cubic_c0 fm smatrix =
     fsub fm (fsub fm (fsub fm (fadd fm
       (fmul fm (fmul fm (elem smatrix 0) (elem smatrix 3)) (elem smatrix 5))
       (fmul fm (fmul fm (fmul fm 2 (elem smatrix 1)) (elem smatrix 2)) (elem smatrix 4)))
       (fmul fm (fmul fm (elem smatrix 0) (elem smatrix 4)) (elem smatrix 4)))
       (fmul fm (fmul fm (elem smatrix 3) (elem smatrix 2)) (elem smatrix 2)))
       (fmul fm (fmul fm (elem smatrix 5) (elem smatrix 1)) (elem smatrix 1))"

definition cubic_c1 :: "float_math \<Rightarrow> Sym3x3 \<Rightarrow> real" where
  "cubic_c1 fm smatrix =
     fsub fm (fsub fm (fsub fm (fadd fm (fadd fm
       (fmul fm (elem smatrix 0) (elem smatrix 3))
       (fmul fm (elem smatrix 0) (elem smatrix 5)))
       (fmul fm (elem smatrix 3) (elem smatrix 5)))
       (fmul fm (elem smatrix 1) (elem smatrix 1)))
       (fmul fm (elem smatrix 2) (elem smatrix 2)))
       (fmul fm (elem smatrix 4) (elem smatrix 4))"

definition cubic_c2 :: "float_math \<Rightarrow> Sym3x3 \<Rightarrow> real" where
  "cubic_c2 fm smatrix = fadd fm (fadd fm (elem smatrix 0) (elem smatrix 3)) (elem smatrix 5)"

definition cubic_a :: "float_math \<Rightarrow> Sym3x3 \<Rightarrow> real" where
  "cubic_a fm smatrix =
     (let c1 = cubic_c1 fm smatrix; c2 = cubic_c2 fm smatrix
      in fsub fm c1 (fmul fm (fmul fm (fdiv fm 1 3) c2) c2))"

definition cubic_b :: "float_math \<Rightarrow> Sym3x3 \<Rightarrow> real" where
  "cubic_b fm smatrix =
     (let c0 = cubic_c0 fm smatrix; c1 = cubic_c1 fm smatrix; c2 = cubic_c2 fm smatrix
      in fsub fm (fadd fm
           (fmul fm (fmul fm (fmul fm (fdiv fm (- 2) 27) c2) c2) c2)
           (fmul fm (fmul fm (fdiv fm 1 3) c1) c2))
           c0)"

definition cubic_Q :: "float_math \<Rightarrow> Sym3x3 \<Rightarrow> real" where
  "cubic_Q fm smatrix =
     (let a = cubic_a fm smatrix; b = cubic_b fm smatrix
      in fadd fm (fmul fm (fmul fm 0.25 b) b)
                 (fmul fm (fmul fm (fmul fm (fdiv fm 1 27) a) a) a))"

text \<open>The three roots of the branch "three distinct roots", before the larger is picked.\<close>

definition three_roots :: "float_math \<Rightarrow> Sym3x3 \<Rightarrow> real \<times> real \<times> real" where
  "three_roots fm smatrix =
     (let c2 = cubic_c2 fm smatrix; b = cubic_b fm smatrix; Q = cubic_Q fm smatrix;
          theta = std_atan2 fm (vec4_sqrt fm (- Q)) (fmul fm (- 0.5) b);
          rho = vec4_sqrt fm (fsub fm (fmul fm (fmul fm 0.25 b) b) Q);
          rt = vec4_cbrt fm rho;
          ct = std_cos fm (fdiv fm theta 3);
          st = std_sin fm (fdiv fm theta 3);
          l1 = fadd fm (fmul fm (fdiv fm 1 3) c2) (fmul fm (fmul fm 2 rt) ct);
          l2 = fsub fm (fmul fm (fdiv fm 1 3) c2)
                 (fmul fm rt (fadd fm ct (fmul fm (std_sqrt fm 3) st)));
          l3 = fsub fm (fmul fm (fdiv fm 1 3) c2)
                 (fmul fm rt (fsub fm ct (fmul fm (std_sqrt fm 3) st)))
      in (l1, l2, l3))"

text \<open>The two roots of the branch "two roots": \<open>l1\<close> is the repeated one.\<close>

definition two_roots :: "float_math \<Rightarrow> Sym3x3 \<Rightarrow> real \<times> real" where
  "two_roots fm smatrix =
     (let c2 = cubic_c2 fm smatrix; b = cubic_b fm smatrix;
          rt = (if b < 0 then - vec4_cbrt fm (fmul fm (- 0.5) b)
                else vec4_cbrt fm (fmul fm 0.5 b));
          l1 = fadd fm (fmul fm (fdiv fm 1 3) c2) rt;
          l2 = fsub fm (fmul fm (fdiv fm 1 3) c2) (fmul fm 2 rt)
      in (l1, l2))"

definition ComputePrincipleComponent :: "float_math \<Rightarrow> Sym3x3 \<Rightarrow> Vec3" where
  "ComputePrincipleComponent fm smatrix =
     (let Q = cubic_Q fm smatrix
      in if FLT_EPSILON < Q then Vec3 1 1 1
         else if Q < - FLT_EPSILON then
           (let (l1, l2, l3) = three_roots fm smatrix;
                l1 = (if \<bar>l2\<bar> > \<bar>l1\<bar> then l2 else l1);
                l1 = (if \<bar>l3\<bar> > \<bar>l1\<bar> then l3 else l1)
            in GetMultiplicity1Evector fm smatrix l1)
         else
           (let (l1, l2) = two_roots fm smatrix
            in if \<bar>l1\<bar> > \<bar>l2\<bar> then GetMultiplicity2Evector fm smatrix l1
               else GetMultiplicity1Evector fm smatrix l2))"

subsection \<open>The gamma tables\<close>

text \<open>
  The constants under the comment "sRGB spec" and the two 256-entry tables, each entry
  the decimal literal of the source (the float it denotes is the nearest one, within a
  relative \<open>2^-24\<close>).
\<close>

definition basefpartition :: real where "basefpartition = 0.0031308"
definition baseipartition :: real where "baseipartition = 0.004045"
definition basefslope :: real where "basefslope = 12.92 / 1"
definition baseislope :: real where "baseislope = 1 / 12.92"
definition basefgamma :: real where "basefgamma = 2.4 / 1"
definition baseigamma :: real where "baseigamma = 1 / 2.4"
definition baseoffset :: real where "baseoffset = 0.055"

definition baseLUT_sRGB :: "real list" where
  "baseLUT_sRGB =
    [0, 0.000303527, 0.00114819, 0.00132772, 0.00152264, 0.00173331, 0.00196007, 0.00220325,
     0.00246318, 0.00274017, 0.00303452, 0.00334654, 0.00367651, 0.00402472, 0.00439144, 0.00477695,
     0.00518152, 0.00560539, 0.00604883, 0.00651209, 0.00699541, 0.00749903, 0.00802319, 0.00856813,
     0.00913406, 0.00972122, 0.0103298, 0.0109601, 0.0116122, 0.0122865, 0.012983, 0.0137021,
     0.0144438, 0.0152085, 0.0159963, 0.0168074, 0.017642, 0.0185002, 0.0193824, 0.0202886,
     0.021219, 0.0221739, 0.0231534, 0.0241576, 0.0251869, 0.0262412, 0.0273209, 0.028426,
     0.0295568, 0.0307134, 0.031896, 0.0331048, 0.0343398, 0.0356013, 0.0368894, 0.0382044,
     0.0395462, 0.0409152, 0.0423114, 0.043735, 0.0451862, 0.0466651, 0.0481718, 0.0497066,
     0.0512695, 0.0528606, 0.0544803, 0.0561285, 0.0578054, 0.0595112, 0.0612461, 0.06301,
     0.0648033, 0.0666259, 0.0684782, 0.0703601, 0.0722719, 0.0742136, 0.0761854, 0.0781874,
     0.0802198, 0.0822827, 0.0843762, 0.0865005, 0.0886556, 0.0908417, 0.093059, 0.0953075,
     0.0975873, 0.0998987, 0.102242, 0.104616, 0.107023, 0.109462, 0.111932, 0.114435,
     0.116971, 0.119538, 0.122139, 0.124772, 0.127438, 0.130136, 0.132868, 0.135633,
     0.138432, 0.141263, 0.144128, 0.147027, 0.14996, 0.152926, 0.155926, 0.158961,
     0.162029, 0.165132, 0.168269, 0.171441, 0.174647, 0.177888, 0.181164, 0.184475,
     0.187821, 0.191202, 0.194618, 0.198069, 0.201556, 0.205079, 0.208637, 0.212231,
     0.215861, 0.219526, 0.223228, 0.226966, 0.23074, 0.234551, 0.238398, 0.242281,
     0.246201, 0.250158, 0.254152, 0.258183, 0.262251, 0.266356, 0.270498, 0.274677,
     0.278894, 0.283149, 0.287441, 0.291771, 0.296138, 0.300544, 0.304987, 0.309469,
     0.313989, 0.318547, 0.323143, 0.327778, 0.332452, 0.337164, 0.341914, 0.346704,
     0.351533, 0.3564, 0.361307, 0.366253, 0.371238, 0.376262, 0.381326, 0.386429,
     0.391572, 0.396755, 0.401978, 0.40724, 0.412543, 0.417885, 0.423268, 0.42869,
     0.434154, 0.439657, 0.445201, 0.450786, 0.456411, 0.462077, 0.467784, 0.473531,
     0.47932, 0.48515, 0.491021, 0.496933, 0.502886, 0.508881, 0.514918, 0.520996,
     0.527115, 0.533276, 0.539479, 0.545724, 0.552011, 0.55834, 0.564712, 0.571125,
     0.57758, 0.584078, 0.590619, 0.597202, 0.603827, 0.610496, 0.617207, 0.62396,
     0.630757, 0.637597, 0.64448, 0.651406, 0.658375, 0.665387, 0.672443, 0.679542,
     0.686685, 0.693872, 0.701102, 0.708376, 0.715693, 0.723055, 0.730461, 0.73791,
     0.745404, 0.752942, 0.760525, 0.768151, 0.775822, 0.783538, 0.791298, 0.799103,
     0.806952, 0.814847, 0.822786, 0.83077, 0.838799, 0.846873, 0.854993, 0.863157,
     0.871367, 0.879622, 0.887923, 0.896269, 0.904661, 0.913099, 0.921582, 0.930111,
     0.938686, 0.947307, 0.955973, 0.964686, 0.973445, 0.982251, 0.991102, 1]"
definition baseLUT_Linear :: "real list" where
  "baseLUT_Linear =
    [0, 0.00392157, 0.00784314, 0.0117647, 0.0156863, 0.0196078, 0.0235294, 0.027451,
     0.0313726, 0.0352941, 0.0392157, 0.0431373, 0.0470588, 0.0509804, 0.054902, 0.0588235,
     0.0627451, 0.0666667, 0.0705882, 0.0745098, 0.0784314, 0.0823529, 0.0862745, 0.0901961,
     0.0941176, 0.0980392, 0.101961, 0.105882, 0.109804, 0.113725, 0.117647, 0.121569,
     0.12549, 0.129412, 0.133333, 0.137255, 0.141176, 0.145098, 0.14902, 0.152941,
     0.156863, 0.160784, 0.164706, 0.168627, 0.172549, 0.176471, 0.180392, 0.184314,
     0.188235, 0.192157, 0.196078, 0.2, 0.203922, 0.207843, 0.211765, 0.215686,
     0.219608, 0.223529, 0.227451, 0.231373, 0.235294, 0.239216, 0.243137, 0.247059,
     0.25098, 0.254902, 0.258824, 0.262745, 0.266667, 0.270588, 0.27451, 0.278431,
     0.282353, 0.286275, 0.290196, 0.294118, 0.298039, 0.301961, 0.305882, 0.309804,
     0.313726, 0.317647, 0.321569, 0.32549, 0.329412, 0.333333, 0.337255, 0.341176,
     0.345098, 0.34902, 0.352941, 0.356863, 0.360784, 0.364706, 0.368627, 0.372549,
     0.376471, 0.380392, 0.384314, 0.388235, 0.392157, 0.396078, 0.4, 0.403922,
     0.407843, 0.411765, 0.415686, 0.419608, 0.423529, 0.427451, 0.431373, 0.435294,
     0.439216, 0.443137, 0.447059, 0.45098, 0.454902, 0.458824, 0.462745, 0.466667,
     0.470588, 0.47451, 0.478431, 0.482353, 0.486275, 0.490196, 0.494118, 0.498039,
     0.501961, 0.505882, 0.509804, 0.513726, 0.517647, 0.521569, 0.52549, 0.529412,
     0.533333, 0.537255, 0.541176, 0.545098, 0.54902, 0.552941, 0.556863, 0.560784,
     0.564706, 0.568627, 0.572549, 0.576471, 0.580392, 0.584314, 0.588235, 0.592157,
     0.596078, 0.6, 0.603922, 0.607843, 0.611765, 0.615686, 0.619608, 0.623529,
     0.627451, 0.631373, 0.635294, 0.639216, 0.643137, 0.647059, 0.65098, 0.654902,
     0.658824, 0.662745, 0.666667, 0.670588, 0.67451, 0.678431, 0.682353, 0.686275,
     0.690196, 0.694118, 0.698039, 0.701961, 0.705882, 0.709804, 0.713726, 0.717647,
     0.721569, 0.72549, 0.729412, 0.733333, 0.737255, 0.741176, 0.745098, 0.74902,
     0.752941, 0.756863, 0.760784, 0.764706, 0.768627, 0.772549, 0.776471, 0.780392,
     0.784314, 0.788235, 0.792157, 0.796078, 0.8, 0.803922, 0.807843, 0.811765,
     0.815686, 0.819608, 0.823529, 0.827451, 0.831373, 0.835294, 0.839216, 0.843137,
     0.847059, 0.85098, 0.854902, 0.858824, 0.862745, 0.866667, 0.870588, 0.87451,
     0.878431, 0.882353, 0.886275, 0.890196, 0.894118, 0.898039, 0.901961, 0.905882,
     0.909804, 0.913725, 0.917647, 0.921569, 0.92549, 0.929412, 0.933333, 0.937255,
     0.941176, 0.945098, 0.94902, 0.952941, 0.956863, 0.960784, 0.964706, 0.968627,
     0.972549, 0.976471, 0.980392, 0.984314, 0.988235, 0.992157, 0.996078, 1]"

definition ComputeGammaLUT :: "bool \<Rightarrow> real list" where
  "ComputeGammaLUT sRGB = (if sRGB then baseLUT_sRGB else baseLUT_Linear)"

text \<open>
  The transfer function of IEC 61966-2-1 on an encoded value \<open>v\<close>, for the statement about
  the sRGB table: linear below the break \<open>0.04045\<close>, a power law above. The power \<open>2.4\<close>
  is \<open>12/5\<close>: \<open>y\<close> is the value of the power branch at \<open>v\<close> when \<open>y^5 = ((v + 0.055)/1.055)^12\<close>.
\<close>

definition srgb_break :: real where "srgb_break = 0.04045"

definition srgb_linear_branch :: "real \<Rightarrow> real" where
  "srgb_linear_branch v = v / 12.92"

definition srgb_power_base :: "real \<Rightarrow> real" where
  "srgb_power_base v = (v + 0.055) / 1.055"

text \<open>
  An entry of a table is the linear branch at \<open>i/255\<close> up to the rounding of its literal
  (\<open>5e-9\<close>), or the power branch up to the rounding of six digits, compared through
  \<open>y^5\<close> and the twelfth power of the base.
\<close>

definition is_linear_entry :: "real list \<Rightarrow> nat \<Rightarrow> bool" where
  "is_linear_entry lut i = (\<bar>lut ! i - srgb_linear_branch (real i / 255)\<bar> \<le> 5 / 10 ^ 9)"

definition is_power_entry :: "real list \<Rightarrow> nat \<Rightarrow> bool" where
  "is_power_entry lut i =
     (let p = srgb_power_base (real i / 255) ^ 12
      in \<bar>(lut ! i) ^ 5 - p\<bar> \<le> p / 20000)"

section \<open>The float 4-lane type (simd\_sse.h, class Vec4)\<close>

text \<open>
  The four lanes of a \<open>Vec4\<close> are reals here: in the fitter the floats are multiplied,
  added and compared, and the model keeps the exact products and sums.
\<close>

datatype Vec4 = Vec4 (X: real) (Y: real) (Z: real) (W: real)

text \<open>\<open>Vec4( float s )\<close> is \<open>_mm_set1_ps( s )\<close>.\<close>

definition Vec4_splat :: "real \<Rightarrow> Vec4" where
  "Vec4_splat s = Vec4 s s s s"

text \<open>\<open>GetO(o)\<close> returns a reference to lane \<open>o\<close>: \<open>GetO\<close> reads it, \<open>SetO\<close> assigns to it.\<close>

definition GetO :: "Vec4 \<Rightarrow> nat \<Rightarrow> real" where
  "GetO v o' = (if o' = 0 then X v else if o' = 1 then Y v else if o' = 2 then Z v else W v)"

definition SetO :: "Vec4 \<Rightarrow> nat \<Rightarrow> real \<Rightarrow> Vec4" where
  "SetO v o' s =
     (if o' = 0 then Vec4 s (Y v) (Z v) (W v)
      else if o' = 1 then Vec4 (X v) s (Z v) (W v)
      else if o' = 2 then Vec4 (X v) (Y v) s (W v)
      else Vec4 (X v) (Y v) (Z v) s)"

definition Vec4_mul :: "Vec4 \<Rightarrow> Vec4 \<Rightarrow> Vec4" where
  "Vec4_mul left right =
     Vec4 (X left * X right) (Y left * Y right) (Z left * Z right) (W left * W right)"

definition Vec4_add :: "Vec4 \<Rightarrow> Vec4 \<Rightarrow> Vec4" where
  "Vec4_add left right =
     Vec4 (X left + X right) (Y left + Y right) (Z left + Z right) (W left + W right)"

text \<open>\<open>HorizontalAdd\<close> on a \<open>Vec4\<close>, the branch of two shuffles and adds.\<close>

definition HorizontalAdd_Vec4 :: "Vec4 \<Rightarrow> Vec4" where
  "HorizontalAdd_Vec4 a =
     (let res = a;
          res = Vec4_add res (Vec4 (Z res) (W res) (X res) (Y res));
          res = Vec4_add res (Vec4 (W res) (Z res) (Y res) (X res))
      in res)"

definition Dot_Vec4 :: "Vec4 \<Rightarrow> Vec4 \<Rightarrow> Vec4" where
  "Dot_Vec4 left right = HorizontalAdd_Vec4 (Vec4_mul left right)"

definition LengthSquared :: "Vec4 \<Rightarrow> Vec4" where
  "LengthSquared v = Dot_Vec4 v v"

text \<open>
  \<open>Scr4\<close>, the type of a score, is declared outside the three source files. A score is
  modelled by its first lane, the one that carries the value.
\<close>

type_synonym Scr4 = real

definition Scr4_of :: "Vec4 \<Rightarrow> Scr4" where
  "Scr4_of v = X v"

definition INT_MAX :: int where
  "INT_MAX = 2147483647"

text \<open>
  \<open>FloatToInt<true>\<close>, the SSE2 branch: \<open>_mm_cvttps_epi32\<close> of \<open>v + 0.5\<close>. The conversion
  truncates towards zero and returns \<open>0x80000000\<close> when the result does not fit 32 bits.
\<close>

definition cvttps_lane :: "real \<Rightarrow> 32 word" where
  "cvttps_lane x =
     (let t = (if 0 \<le> x then \<lfloor>x\<rfloor> else \<lceil>x\<rceil>)
      in if - (2 ^ 31) \<le> t \<and> t < 2 ^ 31 then word_of_int t else 0x80000000)"

definition mm_cvttps_epi32 :: "Vec4 \<Rightarrow> m128i" where
  "mm_cvttps_epi32 v = M128i (cvttps_lane (X v)) (cvttps_lane (Y v)) (cvttps_lane (Z v)) (cvttps_lane (W v))"

definition FloatToInt_round :: "Vec4 \<Rightarrow> Col4" where
  "FloatToInt_round v = mm_cvttps_epi32 (Vec4_add v (Vec4_splat 0.5))"

text \<open>
  \<open>PackBytes\<close>: \<open>_mm_packs_epi32\<close> saturates each lane to a signed 16-bit value,
  \<open>_mm_packus_epi16\<close> saturates that to an unsigned byte, and the low four bytes are
  stored: byte \<open>n\<close> comes from lane \<open>n\<close>.
\<close>

definition packs_lane :: "32 word \<Rightarrow> 16 word" where
  "packs_lane x =
     (if 32767 < sint x then 32767 else if sint x < - 32768 then - 32768
      else word_of_int (sint x))"

definition packus_lane :: "16 word \<Rightarrow> 8 word" where
  "packus_lane x =
     (if 255 < sint x then 255 else if sint x < 0 then 0 else word_of_int (sint x))"

definition PackBytes :: "Col4 \<Rightarrow> 8 word list" where
  "PackBytes a =
     [packus_lane (packs_lane (e0 a)), packus_lane (packs_lane (e1 a)),
      packus_lane (packs_lane (e2 a)), packus_lane (packs_lane (e3 a))]"

section \<open>The single-colour fitter (singlepalettefit.cpp)\<close>

record SP_SourceBlock =
  src_start :: "8 word"
  src_end :: "8 word"
  src_error :: "8 word"

text \<open>
  A lookup table (\<open>SinglePaletteLookup2\<close>, \<open>4\<close> or \<open>8\<close>, from singlepalettelookup.inl,
  which is not among the source files): \<open>lookup target index\<close> is
  \<open>lookup[target].sources[index]\<close>. The contents are a parameter. A pointer to a table
  is an option, \<open>None\<close> for \<open>NULL\<close>; the array \<open>lookups\<close> of four pointers is a function of
  the channel.
\<close>

type_synonym SinglePaletteLookup = "nat \<Rightarrow> nat \<Rightarrow> SP_SourceBlock"

type_synonym lookups = "nat \<Rightarrow> SinglePaletteLookup option"

text \<open>
  The quantizer: \<open>gridinv\<close>, and \<open>LookUpLattice\<close>, whose body is outside the source files
  and is a parameter.
\<close>

record vQuantizer =
  gridinv :: Col4
  LookUpLattice :: "int \<Rightarrow> int \<Rightarrow> int \<Rightarrow> int \<Rightarrow> Vec4"

text \<open>
  The members of the fit that \<open>ComputeEndPoints\<close> reads or writes, and the flags the
  constructor receives. \<open>m_palette\<close> gives the value \<open>m_palette->GetPoints(set)\<close> points
  to; \<open>m_entry\<close>, \<open>m_start\<close> and \<open>m_end\<close> are indexed by the set.
\<close>

record SinglePaletteFit =
  m_flags :: int
  m_palette :: "int \<Rightarrow> Vec4"
  m_entry :: "int \<Rightarrow> 8 word list"
  m_start :: "int \<Rightarrow> Vec4"
  m_end :: "int \<Rightarrow> Vec4"
  m_index :: "8 word"

text \<open>
  How a call can fail: \<open>abort()\<close>, an \<open>assume\<close> that does not hold (where the build checks
  it), and a read through a \<open>NULL\<close> table pointer.
\<close>

datatype failure = Abort | AssumeViolated | NullPointer

text \<open>The test \<open>cmask & (1 << channel)\<close>.\<close>

definition enabled :: "8 word \<Rightarrow> nat \<Rightarrow> bool" where
  "enabled cmask channel = (uint cmask AND push_bit channel 1 \<noteq> 0)"

text \<open>
  The loop over the channels, for one codebook index: it fills \<open>sources\<close> and \<open>cerror\<close>.
\<close>

fun channel_loop ::
  "real list \<Rightarrow> lookups \<Rightarrow> 8 word list \<Rightarrow> 8 word \<Rightarrow> nat \<Rightarrow> nat list
    \<Rightarrow> SP_SourceBlock option list \<times> Vec4 \<Rightarrow> failure + SP_SourceBlock option list \<times> Vec4"
where
  "channel_loop eLUT lookups entry cmask index [] acc = Inr acc"
| "channel_loop eLUT lookups entry cmask index (channel # rest) (sources, cerror) =
     (if enabled cmask channel then
        (case lookups channel of
           None \<Rightarrow> Inl NullPointer
         | Some lookup \<Rightarrow>
             (let target = unat (entry ! channel);
                  source = lookup target index
              in channel_loop eLUT lookups entry cmask index rest
                   (sources[channel := Some source],
                    SetO cerror channel (eLUT ! unat (src_error source)))))
      else channel_loop eLUT lookups entry cmask index rest (sources, cerror))"

text \<open>\<open>sources[c] ? sources[c]->start : d\<close> and the same for \<open>end\<close>.\<close>

definition start_or :: "SP_SourceBlock option list \<Rightarrow> nat \<Rightarrow> int \<Rightarrow> int" where
  "start_or sources c d = (case sources ! c of Some s \<Rightarrow> uint (src_start s) | None \<Rightarrow> d)"

definition end_or :: "SP_SourceBlock option list \<Rightarrow> nat \<Rightarrow> int \<Rightarrow> int" where
  "end_or sources c d = (case sources ! c of Some s \<Rightarrow> uint (src_end s) | None \<Rightarrow> d)"

text \<open>What the body of \<open>if (error < besterror)\<close> stores in the fit.\<close>

definition keep :: "vQuantizer \<Rightarrow> int \<Rightarrow> int \<Rightarrow> SP_SourceBlock option list \<Rightarrow> nat
    \<Rightarrow> SinglePaletteFit \<Rightarrow> SinglePaletteFit" where
  "keep q setn AxFF sources index fit =
     fit\<lparr>m_start := (m_start fit)(setn :=
            LookUpLattice q (start_or sources 0 0x00) (start_or sources 1 0x00)
              (start_or sources 2 0x00) (start_or sources 3 AxFF)),
         m_end := (m_end fit)(setn :=
            LookUpLattice q (end_or sources 0 0x00) (end_or sources 1 0x00)
              (end_or sources 2 0x00) (end_or sources 3 AxFF)),
         m_index := word_of_nat (1 * index)\<rparr>"

text \<open>
  The loop over the codebook indices \<open>index < k\<close>, with the early out on a best error that
  is not above zero.
\<close>

function index_loop ::
  "nat \<Rightarrow> real list \<Rightarrow> int \<Rightarrow> Vec4 \<Rightarrow> vQuantizer \<Rightarrow> lookups \<Rightarrow> 8 word \<Rightarrow> int
    \<Rightarrow> nat \<Rightarrow> Scr4 \<Rightarrow> SinglePaletteFit \<Rightarrow> failure + Scr4 \<times> SinglePaletteFit"
where
  "index_loop k eLUT setn metric q lookups cmask AxFF index besterror fit =
     (if index < k then
        (case channel_loop eLUT lookups (m_entry fit setn) cmask index [0, 1, 2, 3]
                (replicate 4 None, Vec4_splat 0) of
           Inl e \<Rightarrow> Inl e
         | Inr (sources, cerror) \<Rightarrow>
             (let error = Scr4_of (LengthSquared (Vec4_mul metric cerror))
              in if error < besterror then
                   (let besterror = error;
                        fit = keep q setn AxFF sources index fit
                    in if \<not> (besterror > 0) then Inr (besterror, fit)
                       else index_loop k eLUT setn metric q lookups cmask AxFF
                              (index + 1) besterror fit)
                 else index_loop k eLUT setn metric q lookups cmask AxFF
                        (index + 1) besterror fit))
      else Inr (besterror, fit))"
  by pat_completeness auto
termination
  by (relation "measure (\<lambda>(k, eLUT, setn, metric, q, lookups, cmask, AxFF, index, besterror, fit).
        k - index)") auto

text \<open>
  The body that the three overloads taking \<open>lookups\<close> share word for word, with the
  number \<open>k\<close> of indices tried (2, 4 and 8) and the error table as parameters.
\<close>

definition ComputeEndPoints_body ::
  "real list \<Rightarrow> nat \<Rightarrow> SinglePaletteFit \<Rightarrow> int \<Rightarrow> Vec4 \<Rightarrow> vQuantizer \<Rightarrow> lookups \<Rightarrow> 8 word
    \<Rightarrow> failure + Scr4 \<times> SinglePaletteFit" where
  "ComputeEndPoints_body eLUT k fit setn metric q lookups cmask =
     (let besterror = FLT_MAX;
          values = m_palette fit setn;
          AxFF = A (gridinv q) - 1;
          fit = fit\<lparr>m_entry := (m_entry fit)(setn :=
                  PackBytes (FloatToInt_round (Vec4_mul values (Vec4_splat 255))))\<rparr>
      in index_loop k eLUT setn metric q lookups cmask AxFF 0 besterror fit)"

text \<open>In each overload the table is \<open>eLUT = ComputeGammaLUT(false)\<close>.\<close>

definition ComputeEndPointsN ::
  "nat \<Rightarrow> SinglePaletteFit \<Rightarrow> int \<Rightarrow> Vec4 \<Rightarrow> vQuantizer \<Rightarrow> lookups \<Rightarrow> 8 word
    \<Rightarrow> failure + Scr4 \<times> SinglePaletteFit" where
  "ComputeEndPointsN k fit setn metric q lookups cmask =
     ComputeEndPoints_body (ComputeGammaLUT False) k fit setn metric q lookups cmask"

definition ComputeEndPoints2 ::
  "SinglePaletteFit \<Rightarrow> int \<Rightarrow> Vec4 \<Rightarrow> vQuantizer \<Rightarrow> lookups \<Rightarrow> 8 word
    \<Rightarrow> failure + Scr4 \<times> SinglePaletteFit" where
  "ComputeEndPoints2 = ComputeEndPointsN 2"

definition ComputeEndPoints4 ::
  "SinglePaletteFit \<Rightarrow> int \<Rightarrow> Vec4 \<Rightarrow> vQuantizer \<Rightarrow> lookups \<Rightarrow> 8 word
    \<Rightarrow> failure + Scr4 \<times> SinglePaletteFit" where
  "ComputeEndPoints4 = ComputeEndPointsN 4"

definition ComputeEndPoints8 ::
  "SinglePaletteFit \<Rightarrow> int \<Rightarrow> Vec4 \<Rightarrow> vQuantizer \<Rightarrow> lookups \<Rightarrow> 8 word
    \<Rightarrow> failure + Scr4 \<times> SinglePaletteFit" where
  "ComputeEndPoints8 = ComputeEndPointsN 8"

text \<open>
  The tables the first overload chooses from. Those named by a macro
  (\<open>sp_lookup_5u1_4_sb_\<close> and the like) depend on the build and on the shared bits
  \<open>sb\<close>: each is a function of \<open>sb\<close> here.
\<close>

record sp_tables =
  sp_lookup_5_4 :: SinglePaletteLookup
  sp_lookup_7_4 :: SinglePaletteLookup
  sp_lookup_8_4 :: SinglePaletteLookup
  sp_lookup_6_8 :: SinglePaletteLookup
  sp_lookup_5u1_4_sb :: "int \<Rightarrow> SinglePaletteLookup"
  sp_lookup_7u1_4_sb :: "int \<Rightarrow> SinglePaletteLookup"
  sp_lookup_4u1_8_ck :: "int \<Rightarrow> SinglePaletteLookup"
  sp_lookup_6s1_8_sb :: "int \<Rightarrow> SinglePaletteLookup"
  sp_lookup_7u1_16_sb :: "int \<Rightarrow> SinglePaletteLookup"
  sp_lookup_5u1_4_ck :: "int \<Rightarrow> SinglePaletteLookup"

text \<open>
  The overload that takes the format parameters. \<open>assume\<close> is a macro defined outside the
  source files: with \<open>checked\<close> a condition that does not hold stops the call, without it
  the condition is not tested. The array \<open>{ cl, cl, cl, al }\<close> is the function
  \<open>lookups_of cl al\<close>.
\<close>

definition lookups_of :: "SinglePaletteLookup \<Rightarrow> SinglePaletteLookup option \<Rightarrow> lookups" where
  "lookups_of cl al = (\<lambda>channel. if channel < 3 then Some cl else al)"

definition ComputeEndPoints ::
  "bool \<Rightarrow> sp_tables \<Rightarrow> SinglePaletteFit \<Rightarrow> int \<Rightarrow> Vec4 \<Rightarrow> vQuantizer
    \<Rightarrow> int \<Rightarrow> int \<Rightarrow> int \<Rightarrow> int \<Rightarrow> 8 word \<Rightarrow> failure + Scr4 \<times> SinglePaletteFit" where
  "ComputeEndPoints checked t fit setn metric q cb ab sb ib cmask =
     (if checked \<and> \<not> (ib \<ge> 2 \<and> ib \<le> 4) then Inl AssumeViolated
      else if ib = 2 then
        (if checked \<and> \<not> (cb \<ge> 5 \<and> cb \<le> 8) then Inl AssumeViolated
         else if cb \<noteq> 5 \<and> cb \<noteq> 6 \<and> cb \<noteq> 7 \<and> cb \<noteq> 8 then Inl Abort
         else if checked \<and> \<not> (ab = 0 \<or> ab = 6 \<or> ab = 8) then Inl AssumeViolated
         else
           (let cl = (if cb = 5 then sp_lookup_5_4 t
                      else if cb = 6 then sp_lookup_5u1_4_sb t sb
                      else if cb = 7 then sp_lookup_7_4 t
                      else sp_lookup_7u1_4_sb t sb);
                al = (if ab = 6 then Some (sp_lookup_5u1_4_ck t sb)
                      else if ab = 8 then Some (sp_lookup_8_4 t)
                      else None)
            in ComputeEndPoints2 fit setn metric q (lookups_of cl al) cmask))
      else if ib = 3 then
        (if checked \<and> \<not> (cb = 5 \<or> cb = 7) then Inl AssumeViolated
         else if cb \<noteq> 5 \<and> cb \<noteq> 7 then Inl Abort
         else if checked \<and> \<not> (ab = 0 \<or> ab = 6) then Inl AssumeViolated
         else
           (let cl = (if cb = 5 then sp_lookup_4u1_8_ck t sb else sp_lookup_6s1_8_sb t sb);
                al = (if ab = 6 then Some (sp_lookup_6_8 t) else None)
            in ComputeEndPoints4 fit setn metric q (lookups_of cl al) cmask))
      else if ib = 4 then
        (if checked \<and> \<not> cb = 8 then Inl AssumeViolated
         else if cb \<noteq> 8 then Inl Abort
         else if checked \<and> \<not> ab = 8 then Inl AssumeViolated
         else if ab \<noteq> 8 then Inl Abort
         else
           (let cl = sp_lookup_7u1_16_sb t sb;
                al = Some (sp_lookup_7u1_16_sb t sb)
            in ComputeEndPoints8 fit setn metric q (lookups_of cl al) cmask))
      else Inr (float32 (of_int INT_MAX), fit))"

section \<open>What the claims speak of\<close>

text \<open>
  The source block that slot \<open>index\<close> reads for channel \<open>c\<close> (none for a channel whose bit
  of \<open>cmask\<close> is clear), the error of the channel after the error table, and the error of
  the slot: the sum over the channels of the squared product of the channel's metric and
  its error.
\<close>

definition slot_source ::
  "lookups \<Rightarrow> 8 word list \<Rightarrow> 8 word \<Rightarrow> nat \<Rightarrow> nat \<Rightarrow> SP_SourceBlock option" where
  "slot_source lookups entry cmask index c =
     (if bit cmask c then
        (case lookups c of
           Some lookup \<Rightarrow> Some (lookup (unat (entry ! c)) index)
         | None \<Rightarrow> None)
      else None)"

definition slot_sources ::
  "lookups \<Rightarrow> 8 word list \<Rightarrow> 8 word \<Rightarrow> nat \<Rightarrow> SP_SourceBlock option list" where
  "slot_sources lookups entry cmask index =
     map (slot_source lookups entry cmask index) [0, 1, 2, 3]"

definition channel_error ::
  "real list \<Rightarrow> lookups \<Rightarrow> 8 word list \<Rightarrow> 8 word \<Rightarrow> nat \<Rightarrow> nat \<Rightarrow> real" where
  "channel_error eLUT lookups entry cmask index c =
     (case slot_source lookups entry cmask index c of
        Some s \<Rightarrow> eLUT ! unat (src_error s)
      | None \<Rightarrow> 0)"

definition slot_error ::
  "real list \<Rightarrow> Vec4 \<Rightarrow> lookups \<Rightarrow> 8 word list \<Rightarrow> 8 word \<Rightarrow> nat \<Rightarrow> real" where
  "slot_error eLUT metric lookups entry cmask index =
     (\<Sum>c\<leftarrow>[0, 1, 2, 3]. (GetO metric c * channel_error eLUT lookups entry cmask index c)\<^sup>2)"

text \<open>Every channel whose bit of \<open>cmask\<close> is set has a table.\<close>

definition tables_present :: "lookups \<Rightarrow> 8 word \<Rightarrow> bool" where
  "tables_present lookups cmask =
     ((bit cmask 0 \<longrightarrow> lookups 0 \<noteq> None) \<and> (bit cmask 1 \<longrightarrow> lookups 1 \<noteq> None)
      \<and> (bit cmask 2 \<longrightarrow> lookups 2 \<noteq> None) \<and> (bit cmask 3 \<longrightarrow> lookups 3 \<noteq> None))"

text \<open>The bytes that \<open>PackBytes\<close> stores in \<open>m_entry[set]\<close>.\<close>

definition packed_entry :: "SinglePaletteFit \<Rightarrow> int \<Rightarrow> 8 word list" where
  "packed_entry fit setn =
     PackBytes (FloatToInt_round (Vec4_mul (m_palette fit setn) (Vec4_splat 255)))"

text \<open>The format parameters of the support table.\<close>

definition supported_format :: "int \<Rightarrow> int \<Rightarrow> int \<Rightarrow> bool" where
  "supported_format ib cb ab =
     (ib = 2 \<and> (cb = 5 \<or> cb = 6 \<or> cb = 7 \<or> cb = 8) \<and> (ab = 0 \<or> ab = 6 \<or> ab = 8)
      \<or> ib = 3 \<and> (cb = 5 \<or> cb = 7) \<and> (ab = 0 \<or> ab = 6)
      \<or> ib = 4 \<and> cb = 8 \<and> ab = 8)"

text \<open>
  Inputs for the examples: a table whose error falls with the index, a table whose error
  is 255 everywhere, a quantizer with an alpha grid of 256, and a fit.
\<close>

definition ex_table :: SinglePaletteLookup where
  "ex_table target index =
     \<lparr>src_start = word_of_nat target, src_end = word_of_nat (target + index),
      src_error = word_of_nat (3 - index)\<rparr>"


definition ex_tables :: sp_tables where
  "ex_tables =
     \<lparr>sp_lookup_5_4 = ex_table, sp_lookup_7_4 = ex_table, sp_lookup_8_4 = ex_table,
      sp_lookup_6_8 = ex_table, sp_lookup_5u1_4_sb = (\<lambda>sb. ex_table),
      sp_lookup_7u1_4_sb = (\<lambda>sb. ex_table), sp_lookup_4u1_8_ck = (\<lambda>sb. ex_table),
      sp_lookup_6s1_8_sb = (\<lambda>sb. ex_table), sp_lookup_7u1_16_sb = (\<lambda>sb. ex_table),
      sp_lookup_5u1_4_ck = (\<lambda>sb. ex_table)\<rparr>"




section \<open>Properties\<close>

subsection \<open>The integer lanes\<close>

lemma drop16_small: "unat (x::32 word) < 65536 \<Longrightarrow> drop_bit 16 x = 0"
proof -
  assume a: "unat x < 65536"
  have "unat (drop_bit 16 x) = unat x div 2 ^ 16"
    by (simp add: unat_drop_bit_eq drop_bit_eq_div [where 'a=nat])
  also have "\<dots> = 0" using a by simp
  finally show ?thesis by (simp add: unat_eq_0)
qed

lemma hi16_small: "unat x < 65536 \<Longrightarrow> hi16 x = 0"
  by (simp add: hi16_def drop16_small)

lemma unat_lo16: "unat x < 65536 \<Longrightarrow> unat (lo16 x) = unat x"
  by (simp add: lo16_def unsigned_ucast_eq take_bit_nat_eq_self)

lemma unat_ucast_16_32: "unat (ucast (w::16 word) :: 32 word) = unat w"
proof -
  have "unat w < 2 ^ 16" using unsigned_less [of w] by simp
  then have "unat w < 2 ^ 32" by simp
  then show ?thesis by (simp add: unsigned_ucast_eq take_bit_nat_eq_self)
qed

lemma unat_mullo16:
  "unat x < 65536 \<Longrightarrow> unat y < 65536 \<Longrightarrow> unat (mullo16 x y) = (unat x * unat y) mod 65536"
  by (simp add: mullo16_def hi16_small unat_lo16 unat_ucast_16_32 unat_word_ariths)

lemma mullo16_prod_mod16:
  assumes "unat x < 65536" and "unat y < 65536"
  shows "mullo16 x y = prod_mod16 x y"
proof -
  have "unat (prod_mod16 x y) = (unat x * unat y) mod 65536"
    by (simp add: prod_mod16_def unat_of_nat)
  with assms show ?thesis
    by (simp add: word_unat_eq_iff unat_mullo16)
qed

lemma prod_mod16_exact:
  assumes "unat x * unat y < 65536"
  shows "prod_mod16 x y = x * y"
proof -
  have "prod_mod16 x y = word_of_nat (unat x * unat y)"
    using assms by (simp add: prod_mod16_def)
  also have "\<dots> = x * y"
    by simp
  finally show ?thesis .
qed

lemma mm_mullo_epi16_lanes16:
  "lanes16 a \<Longrightarrow> lanes16 b \<Longrightarrow> mm_mullo_epi16 a b = products_mod16 a b"
  by (simp add: lanes16_def mm_mullo_epi16_def products_mod16_def mullo16_prod_mod16)

lemma HorizontalAdd_lanes:
  "HorizontalAdd v = mm_set1_epi32 (e0 v + e2 v + (e3 v + e1 v))"
  by (simp add: HorizontalAdd_def Let_def mm_add_epi32_def SQUISH_SSE_SWAP64_def
      SQUISH_SSE_SWAP32_def mm_shuffle_epi32_def lane_def mm_set1_epi32_def)

text \<open>
  C8. For two \<open>Col4\<close> values whose four lanes all lie in \<open>[0, 2^16)\<close>, the products that
  \<open>operator*\<close>, \<open>MultiplyAdd\<close>, \<open>NegativeMultiplySubtract\<close> and \<open>Dot\<close> compute are, lane by
  lane, the exact products reduced modulo \<open>2^16\<close>: \<open>operator*\<close> returns them,
  \<open>MultiplyAdd\<close> adds \<open>c\<close> to them, \<open>NegativeMultiplySubtract\<close> subtracts them from \<open>c\<close>,
  \<open>Dot\<close> sums them into every lane. They are the 32-bit products when every lane product
  is below \<open>2^16\<close>, and there are inputs in range where they are not.
\<close>

theorem Col4_products_mod_2_16:
  assumes "lanes16 a" and "lanes16 b"
  shows "Col4_mul a b = products_mod16 a b
    \<and> MultiplyAdd a b c = mm_add_epi32 (products_mod16 a b) c
    \<and> NegativeMultiplySubtract a b c = mm_sub_epi32 c (products_mod16 a b)
    \<and> Dot a b = HorizontalAdd (products_mod16 a b)
    \<and> lanes (Dot a b) = replicate 4 (sum_list (lanes (products_mod16 a b)))
    \<and> (products_below_2_16 a b \<longrightarrow> Col4_mul a b = products32 a b)
    \<and> (\<exists>a' b'. lanes16 a' \<and> lanes16 b' \<and> Col4_mul a' b' \<noteq> products32 a' b')"
proof -
  have m: "mm_mullo_epi16 a b = products_mod16 a b"
    using assms by (rule mm_mullo_epi16_lanes16)
  have d: "lanes (HorizontalAdd (products_mod16 a b))
      = replicate 4 (sum_list (lanes (products_mod16 a b)))"
    by (simp add: HorizontalAdd_lanes lanes_def mm_set1_epi32_def numeral_eq_Suc add_ac)
  have x: "products_below_2_16 a b \<longrightarrow> products_mod16 a b = products32 a b"
    by (simp add: products_below_2_16_def products_mod16_def products32_def prod_mod16_exact)
  have "lanes16 (M128i 256 0 0 0)"
    by (simp add: lanes16_def)
  moreover have "Col4_mul (M128i 256 0 0 0) (M128i 256 0 0 0)
      \<noteq> products32 (M128i 256 0 0 0) (M128i 256 0 0 0)"
    by (simp add: Col4_mul_def mm_mullo_epi16_def products32_def mullo16_def lo16_def hi16_def)
  ultimately have e: "\<exists>a' b'. lanes16 a' \<and> lanes16 b' \<and> Col4_mul a' b' \<noteq> products32 a' b'"
    by blast
  show ?thesis
    using m d x e
    by (simp add: Col4_mul_def MultiplyAdd_def NegativeMultiplySubtract_def Dot_def)
qed

theorem Col4_products_mod_2_16_witness:
  "lanes16 (M128i 300 2 65535 0) \<and> lanes16 (M128i 300 3 65535 7)
   \<and> Col4_mul (M128i 300 2 65535 0) (M128i 300 3 65535 7) = M128i 24464 6 1 0
   \<and> MultiplyAdd (M128i 300 2 65535 0) (M128i 300 3 65535 7) (M128i 1 1 1 1)
       = M128i 24465 7 2 1
   \<and> Dot (M128i 300 2 65535 0) (M128i 300 3 65535 7) = M128i 24471 24471 24471 24471"
proof -
  have a: "lanes16 (M128i 300 2 65535 0)" and b: "lanes16 (M128i 300 3 65535 7)"
    by (simp_all add: lanes16_def)
  have p: "products_mod16 (M128i 300 2 65535 0) (M128i 300 3 65535 7) = M128i 24464 6 1 0"
    by (simp add: products_mod16_def prod_mod16_def)
  show ?thesis
    using a b Col4_products_mod_2_16 [OF a b, of "M128i 1 1 1 1"]
    by (simp add: p mm_add_epi32_def HorizontalAdd_lanes mm_set1_epi32_def)
qed

text \<open>
  C10. \<open>CompareAnyLessThan\<close> on two \<open>Col4\<close> is true exactly when the two values are equal
  in at least one of the four 32-bit lanes: the comparison it makes is \<open>_mm_cmpeq_epi32\<close>,
  an equality test, and no order comparison is made.
\<close>

theorem CompareAnyLessThan_is_lane_equality:
  "CompareAnyLessThan left right
    = (e0 left = e0 right \<or> e1 left = e1 right \<or> e2 left = e2 right \<or> e3 left = e3 right)"
  by (simp add: CompareAnyLessThan_def mm_cmpeq_epi32_def mm_movemask_epi8_def
      bytes_msb_def cmpeq32_def)

theorem CompareAnyLessThan_is_lane_equality_witness:
  "CompareAnyLessThan (M128i 5 1 2 3) (M128i 9 9 2 9)
   \<and> \<not> CompareAnyLessThan (M128i 1 1 1 1) (M128i 2 2 2 2)
   \<and> \<not> CompareAnyLessThan (M128i 1 1 1 1) (M128i 2 3 4 5)"
  by (simp add: CompareAnyLessThan_is_lane_equality)

subsection \<open>The gamma table\<close>

lemma baseLUT_sRGB_low: "take 11 baseLUT_sRGB = [0, 0.000303527, 0.00114819, 0.00132772, 0.00152264, 0.00173331, 0.00196007, 0.00220325,
     0.00246318, 0.00274017, 0.00303452]"
  by (simp add: baseLUT_sRGB_def)

lemma baseLUT_sRGB_take: "i < 11 \<Longrightarrow> baseLUT_sRGB ! i = take 11 baseLUT_sRGB ! i"
  by simp

text \<open>
  C3. The sRGB table has 256 entries, entry 0 is \<open>0\<close> and entry 255 is \<open>1\<close>, and entry 1 is
  the linear branch \<open>(1/255)/12.92\<close>. The entries 2 to 10 are not what the claim says:
  \<open>i/255\<close> is at or below the break \<open>0.04045\<close> of IEC 61966-2-1 there, yet each entry is the
  value of the power branch \<open>((i/255 + 0.055)/1.055)^2.4\<close> and differs from \<open>(i/255)/12.92\<close>
  by more than its literal's rounding. The table was made with the break at
  \<open>baseipartition = 0.004045\<close>. Entry 2 is \<open>0.00114819\<close>; the linear branch gives less than
  \<open>0.00061\<close>.
\<close>

theorem sRGB_table_break:
  "length (ComputeGammaLUT True) = 256
   \<and> ComputeGammaLUT True ! 0 = 0 \<and> ComputeGammaLUT True ! 255 = 1
   \<and> is_linear_entry (ComputeGammaLUT True) 1
   \<and> list_all (\<lambda>i. baseipartition < real i / 255 \<and> real i / 255 \<le> srgb_break
         \<and> is_power_entry (ComputeGammaLUT True) i
         \<and> \<not> is_linear_entry (ComputeGammaLUT True) i) [2, 3, 4, 5, 6, 7, 8, 9, 10]
   \<and> ComputeGammaLUT True ! 2 = 0.00114819
   \<and> srgb_linear_branch (2 / 255) < 0.00061"
proof -
  have l: "length (ComputeGammaLUT True) = 256"
    by (simp add: ComputeGammaLUT_def baseLUT_sRGB_def)
  have z: "ComputeGammaLUT True ! 0 = 0" "ComputeGammaLUT True ! 255 = 1"
    by (simp_all add: ComputeGammaLUT_def baseLUT_sRGB_def)
  have low: "i < 11 \<Longrightarrow> ComputeGammaLUT True ! i = [0, 0.000303527, 0.00114819, 0.00132772, 0.00152264, 0.00173331, 0.00196007, 0.00220325,
     0.00246318, 0.00274017, 0.00303452] ! i" for i
    using baseLUT_sRGB_take [of i] by (simp add: ComputeGammaLUT_def baseLUT_sRGB_low)
  have one: "is_linear_entry (ComputeGammaLUT True) 1"
    by (simp add: is_linear_entry_def low srgb_linear_branch_def)
  have rest: "list_all (\<lambda>i. baseipartition < real i / 255 \<and> real i / 255 \<le> srgb_break
         \<and> is_power_entry (ComputeGammaLUT True) i
         \<and> \<not> is_linear_entry (ComputeGammaLUT True) i) [2, 3, 4, 5, 6, 7, 8, 9, 10]"
    by (simp add: low is_linear_entry_def is_power_entry_def srgb_linear_branch_def
        srgb_power_base_def srgb_break_def baseipartition_def Let_def power_divide)
  have two: "ComputeGammaLUT True ! 2 = 0.00114819" by (simp add: low)
  have lin: "srgb_linear_branch (2 / 255) < 0.00061" by (simp add: srgb_linear_branch_def)
  show ?thesis using l z one rest two lin by simp
qed

subsection \<open>The eigensolver\<close>

lemma FLT_EPSILON_pos: "0 < FLT_EPSILON"
  by (simp add: FLT_EPSILON_def)










text \<open>
  The matrix with rows \<open>(3,1,0)\<close>, \<open>(1,2,1)\<close>, \<open>(0,1,3)\<close> has the eigenvalues \<open>4\<close>, \<open>3\<close>
  and \<open>1\<close>, and \<open>(1,1,1)\<close> is an eigenvector for \<open>4\<close>. In exact arithmetic \<open>Q = -1/3\<close>,
  the angle is \<open>theta = 3 * arccos (2 / sqrt 7)\<close>, the three roots come out as \<open>4\<close>, \<open>1\<close>
  and \<open>3\<close>, and the eigenvector built for \<open>4\<close> is \<open>(1,1,1)\<close>.
\<close>

definition phi :: real where
  "phi = arccos (2 / sqrt 7)"

lemma atan2_quadrant2: "x < 0 \<Longrightarrow> 0 \<le> y \<Longrightarrow> atan2 y x = arctan (y / x) + pi"
  by (simp add: atan2_def)

lemma sqrt7_gt2: "2 < sqrt 7"
  using real_less_rsqrt [of 2 7] by simp

lemma sqrt21: "sqrt 3 * sqrt 7 = sqrt 21"
  using real_sqrt_mult [of 3 7] by simp

lemma c_bounds: "0 < 2 / sqrt 7" "2 / sqrt 7 < sqrt 3 / 2" "2 / sqrt 7 < 1"
proof -
  show "0 < 2 / sqrt 7" by simp
  have "4 < sqrt 21" using real_less_rsqrt [of 4 21] by simp
  then have "4 < sqrt 3 * sqrt 7" by (simp add: sqrt21)
  then show "2 / sqrt 7 < sqrt 3 / 2" by (simp add: field_simps)
  show "2 / sqrt 7 < 1" using sqrt7_gt2 by simp
qed

lemma sqrt3_half_le1: "sqrt 3 / 2 \<le> 1"
proof -
  have "sqrt 3 \<le> 2" using real_le_lsqrt [where x = 3 and y = 2] by simp
  then show ?thesis by simp
qed

lemma phi_bounds: "pi / 6 < phi" "phi < pi / 2"
proof -
  have "- 1 \<le> 2 / sqrt 7" using c_bounds(1) by linarith
  then have "arccos (sqrt 3 / 2) < arccos (2 / sqrt 7)"
    using c_bounds(2) sqrt3_half_le1 by (rule arccos_less_arccos)
  moreover have "arccos (sqrt 3 / 2) = pi / 6"
    using arccos_cos [of "pi / 6"] by (simp add: cos_30)
  ultimately show "pi / 6 < phi" by (simp add: phi_def)
  have "arccos (2 / sqrt 7) < arccos 0"
    using c_bounds by (intro arccos_less_arccos) auto
  then show "phi < pi / 2" by (simp add: phi_def)
qed

lemma cos_phi: "cos phi = 2 / sqrt 7"
proof -
  have "- 1 \<le> 2 / sqrt 7" using c_bounds(1) by linarith
  moreover have "2 / sqrt 7 \<le> 1" using c_bounds(3) by linarith
  ultimately show ?thesis unfolding phi_def by (rule cos_arccos)
qed

lemma sin_phi: "sin phi = sqrt 3 / sqrt 7"
proof -
  have "\<bar>2 / sqrt 7\<bar> \<le> 1" using c_bounds by simp
  then have "sin phi = sqrt (1 - (2 / sqrt 7)\<^sup>2)"
    unfolding phi_def by (rule sin_arccos_abs)
  also have "(1::real) - (2 / sqrt 7)\<^sup>2 = 3 / 7" by (simp add: power_divide)
  also have "sqrt (3 / 7) = sqrt 3 / sqrt 7" by (rule real_sqrt_divide)
  finally show ?thesis .
qed

lemma sin_treble: "sin (3 * x) = 3 * sin x - 4 * sin x ^ 3" for x :: real
proof -
  have "sin (3 * x) = sin (2 * x + x)" by simp
  also have "\<dots> = sin (2 * x) * cos x + cos (2 * x) * sin x" by (rule sin_add)
  also have "\<dots> = 2 * sin x * (cos x)\<^sup>2 + (1 - 2 * (sin x)\<^sup>2) * sin x"
    by (simp add: sin_double cos_double_sin power2_eq_square)
  also have "(cos x)\<^sup>2 = 1 - (sin x)\<^sup>2" by (simp add: cos_squared_eq)
  finally show ?thesis by (simp add: algebra_simps power3_eq_cube power2_eq_square)
qed

lemma cos_3phi: "cos (3 * phi) = - 10 / (7 * sqrt 7)"
proof -
  have s: "sqrt 7 * sqrt 7 = 7" by simp
  have "cos (3 * phi) = 4 * (2 / sqrt 7) ^ 3 - 3 * (2 / sqrt 7)"
    by (simp add: cos_treble_cos cos_phi)
  also have "\<dots> = 32 / (7 * sqrt 7) - 42 / (7 * sqrt 7)"
    by (simp add: power3_eq_cube s)
  finally show ?thesis by (simp add: field_simps)
qed

lemma sin_3phi: "sin (3 * phi) = 9 * sqrt 3 / (7 * sqrt 7)"
proof -
  have s: "sqrt 7 * sqrt 7 = 7" "sqrt 3 * sqrt 3 = 3" by simp_all
  have "sin (3 * phi) = 3 * (sqrt 3 / sqrt 7) - 4 * (sqrt 3 / sqrt 7) ^ 3"
    by (simp add: sin_treble sin_phi)
  also have "(sqrt 3 / sqrt 7) ^ 3 = 3 * sqrt 3 / (7 * sqrt 7)"
    by (simp add: power3_eq_cube s)
  also have "3 * (sqrt 3 / sqrt 7) = 21 * sqrt 3 / (7 * sqrt 7)" by simp
  finally show ?thesis by (simp add: field_simps)
qed

lemma tan_3phi: "tan (3 * phi) = - (9 * sqrt 3 / 10)"
  by (simp add: tan_def sin_3phi cos_3phi)

lemma theta431: "atan2 (sqrt (1 / 3)) (- 10 / 27) = 3 * phi"
proof -
  have r: "sqrt (1 / 3) / (- 10 / 27) = - (9 * sqrt 3 / 10)"
  proof -
    have "sqrt (1 / 3) = 1 / sqrt 3" by (simp add: real_sqrt_divide)
    also have "\<dots> = sqrt 3 / 3" using real_div_sqrt [of 3] by (simp add: field_simps)
    finally show ?thesis by simp
  qed
  have "tan (3 * phi - pi) = tan (3 * phi)"
    using tan_periodic_pi [of "3 * phi - pi"] by simp
  then have t: "tan (3 * phi - pi) = - (9 * sqrt 3 / 10)" by (simp add: tan_3phi)
  have "arctan (- (9 * sqrt 3 / 10)) = 3 * phi - pi"
    using phi_bounds t by (intro arctan_unique) auto
  then have "arctan (sqrt (1 / 3) / (- 10 / 27)) + pi = 3 * phi"
    by (simp only: r)
  moreover have "atan2 (sqrt (1 / 3)) (- 10 / 27) = arctan (sqrt (1 / 3) / (- 10 / 27)) + pi"
    by (rule atan2_quadrant2) simp_all
  ultimately show ?thesis by simp
qed


lemma exact_coefficients:
  "cubic_Q exact_math (Sym3x3 3 1 0 2 1 3) = - 1 / 3"
  "cubic_b exact_math (Sym3x3 3 1 0 2 1 3) = 20 / 27"
  "cubic_c2 exact_math (Sym3x3 3 1 0 2 1 3) = 8"
  by (simp_all add: cubic_Q_def cubic_a_def cubic_b_def cubic_c0_def cubic_c1_def
      cubic_c2_def exact_math_def)


lemma exact_cbrt: "root 3 (sqrt (343 / 729)) = sqrt 7 / 3"
proof -
  have "(sqrt 7 / 3) ^ 3 = sqrt 7 * (sqrt 7 * sqrt 7) / 27"
    by (simp add: power3_eq_cube)
  also have "\<dots> = 7 * sqrt 7 / 27" by simp
  finally have c: "(sqrt 7 / 3) ^ 3 = 7 * sqrt 7 / 27" .
  have "sqrt (343 / 729) = sqrt ((7 * sqrt 7 / 27)\<^sup>2)"
    by (simp add: power2_eq_square)
  also have "\<dots> = 7 * sqrt 7 / 27" by (simp del: real_sqrt_abs2 add: real_sqrt_abs)
  finally have "sqrt (343 / 729) = (sqrt 7 / 3) ^ 3" using c by simp
  then show ?thesis by (simp add: real_root_power_cancel)
qed

lemma exact_three_roots: "three_roots exact_math (Sym3x3 3 1 0 2 1 3) = (4, 1, 3)"
proof -
  have th: "atan2 (sqrt (1 / 3)) (- (10 / 27)) = 3 * phi" using theta431 by simp
  have e: "fadd exact_math = (+)" "fsub exact_math = (-)" "fmul exact_math = (*)"
    "fdiv exact_math = (/)" "vec4_sqrt exact_math = sqrt" "vec4_cbrt exact_math = root 3"
    "std_atan2 exact_math = atan2" "std_cos exact_math = cos" "std_sin exact_math = sin"
    "std_sqrt exact_math = sqrt"
    by (simp_all add: exact_math_def)
  show ?thesis
    by (simp add: three_roots_def Let_def exact_coefficients e th exact_cbrt cos_phi sin_phi)
qed


text \<open>
  C6. The root that the eigenvector is built for: in the branch of three distinct roots
  (\<open>Q < -FLT_EPSILON\<close>) it is one of \<open>l1\<close>, \<open>l2\<close>, \<open>l3\<close> and no root is larger in absolute
  value; in the branch of two roots (\<open>|Q| \<le> FLT_EPSILON\<close>) the repeated root \<open>l1\<close> is used,
  with \<open>GetMultiplicity2Evector\<close>, exactly when \<open>|l1| > |l2|\<close>, and the other root \<open>l2\<close>,
  with \<open>GetMultiplicity1Evector\<close>, otherwise.
\<close>

theorem ComputePrincipleComponent_largest_root:
  "(cubic_Q fm smatrix < - FLT_EPSILON \<longrightarrow>
      (case three_roots fm smatrix of (l1, l2, l3) \<Rightarrow>
         \<exists>l. (l = l1 \<or> l = l2 \<or> l = l3)
            \<and> \<bar>l1\<bar> \<le> \<bar>l\<bar> \<and> \<bar>l2\<bar> \<le> \<bar>l\<bar> \<and> \<bar>l3\<bar> \<le> \<bar>l\<bar>
            \<and> ComputePrincipleComponent fm smatrix = GetMultiplicity1Evector fm smatrix l))
   \<and> (- FLT_EPSILON \<le> cubic_Q fm smatrix \<and> cubic_Q fm smatrix \<le> FLT_EPSILON \<longrightarrow>
      (case two_roots fm smatrix of (l1, l2) \<Rightarrow>
         ComputePrincipleComponent fm smatrix
           = (if \<bar>l1\<bar> > \<bar>l2\<bar> then GetMultiplicity2Evector fm smatrix l1
              else GetMultiplicity1Evector fm smatrix l2)))"
  using FLT_EPSILON_pos
  by (auto simp: ComputePrincipleComponent_def Let_def split: prod.splits)

lemma exact_two_roots: "two_roots exact_math (Sym3x3 1 0 0 1 0 2) = (1, 2)"
proof -
  have "root 3 ((1 / 3) ^ 3) = (1 / 3 :: real)"
    by (rule real_root_power_cancel) simp_all
  then have r: "root 3 (1 / 27) = (1 / 3 :: real)"
    by (simp add: power3_eq_cube)
  have b: "cubic_b exact_math (Sym3x3 1 0 0 1 0 2) = - 2 / 27"
    and c: "cubic_c2 exact_math (Sym3x3 1 0 0 1 0 2) = 4"
    by (simp_all add: cubic_b_def cubic_c0_def cubic_c1_def cubic_c2_def exact_math_def)
  show ?thesis
    by (simp add: two_roots_def Let_def b c) (simp add: exact_math_def r)
qed

theorem ComputePrincipleComponent_largest_root_witness:
  "cubic_Q exact_math (Sym3x3 3 1 0 2 1 3) < - FLT_EPSILON
   \<and> three_roots exact_math (Sym3x3 3 1 0 2 1 3) = (4, 1, 3)
   \<and> ComputePrincipleComponent exact_math (Sym3x3 3 1 0 2 1 3)
       = GetMultiplicity1Evector exact_math (Sym3x3 3 1 0 2 1 3) 4
   \<and> - FLT_EPSILON \<le> cubic_Q exact_math (Sym3x3 1 0 0 1 0 2)
   \<and> cubic_Q exact_math (Sym3x3 1 0 0 1 0 2) \<le> FLT_EPSILON
   \<and> two_roots exact_math (Sym3x3 1 0 0 1 0 2) = (1, 2)
   \<and> ComputePrincipleComponent exact_math (Sym3x3 1 0 0 1 0 2)
       = GetMultiplicity1Evector exact_math (Sym3x3 1 0 0 1 0 2) 2"
proof -
  have q3: "cubic_Q exact_math (Sym3x3 3 1 0 2 1 3) < - FLT_EPSILON"
    by (simp add: exact_coefficients FLT_EPSILON_def)
  have "cubic_Q exact_math (Sym3x3 1 0 0 1 0 2) = 0"
    by (simp add: cubic_Q_def cubic_a_def cubic_b_def cubic_c0_def cubic_c1_def
        cubic_c2_def exact_math_def)
  then have q2: "- FLT_EPSILON \<le> cubic_Q exact_math (Sym3x3 1 0 0 1 0 2)"
      "cubic_Q exact_math (Sym3x3 1 0 0 1 0 2) \<le> FLT_EPSILON"
    by (simp_all add: FLT_EPSILON_def)
  have three: "\<exists>l. (l = 4 \<or> l = 1 \<or> l = 3) \<and> \<bar>4\<bar> \<le> \<bar>l\<bar> \<and> \<bar>1\<bar> \<le> \<bar>l\<bar> \<and> \<bar>3\<bar> \<le> \<bar>l\<bar>
      \<and> ComputePrincipleComponent exact_math (Sym3x3 3 1 0 2 1 3)
          = GetMultiplicity1Evector exact_math (Sym3x3 3 1 0 2 1 3) l"
    using q3 ComputePrincipleComponent_largest_root [of exact_math "Sym3x3 3 1 0 2 1 3"]
    by (simp add: exact_three_roots)
  then have c3: "ComputePrincipleComponent exact_math (Sym3x3 3 1 0 2 1 3)
      = GetMultiplicity1Evector exact_math (Sym3x3 3 1 0 2 1 3) 4"
    by auto
  have c2: "ComputePrincipleComponent exact_math (Sym3x3 1 0 0 1 0 2)
      = GetMultiplicity1Evector exact_math (Sym3x3 1 0 0 1 0 2) 2"
    using q2 ComputePrincipleComponent_largest_root [of exact_math "Sym3x3 1 0 0 1 0 2"]
    by (simp add: exact_two_roots)
  show ?thesis
    using q3 q2 c3 c2 by (simp add: exact_three_roots exact_two_roots)
qed

subsection \<open>The single-colour fitter\<close>

declare index_loop.simps [simp del]

lemma enabled_bit: "enabled cmask c = bit cmask c"
proof -
  have "uint cmask AND push_bit c 1 = 0 \<longleftrightarrow> \<not> bit (uint cmask) c"
    by (simp add: and_exp_eq_0_iff_not_bit)
  then show ?thesis
    by (auto simp: enabled_def bit_uint_iff dest: bit_imp_le_length)
qed

lemma channel_loop_eq:
  assumes "tables_present lookups cmask"
  shows "channel_loop eLUT lookups entry cmask index [0, 1, 2, 3] (replicate 4 None, Vec4_splat 0)
    = Inr (slot_sources lookups entry cmask index,
           Vec4 (channel_error eLUT lookups entry cmask index 0)
                (channel_error eLUT lookups entry cmask index 1)
                (channel_error eLUT lookups entry cmask index 2)
                (channel_error eLUT lookups entry cmask index 3))"
  using assms
  by (auto simp: tables_present_def enabled_bit slot_sources_def slot_source_def channel_error_def
      Vec4_splat_def SetO_def Let_def numeral_eq_Suc split: option.splits)

lemma Scr4_LengthSquared:
  "Scr4_of (LengthSquared (Vec4_mul metric (Vec4 c0 c1 c2 c3)))
    = (X metric * c0)\<^sup>2 + (Y metric * c1)\<^sup>2 + (Z metric * c2)\<^sup>2 + (W metric * c3)\<^sup>2"
  by (simp add: Scr4_of_def LengthSquared_def Dot_Vec4_def HorizontalAdd_Vec4_def Vec4_mul_def
      Vec4_add_def Let_def power2_eq_square)

lemma slot_error_lanes:
  "slot_error eLUT metric lookups entry cmask index
    = (X metric * channel_error eLUT lookups entry cmask index 0)\<^sup>2
    + (Y metric * channel_error eLUT lookups entry cmask index 1)\<^sup>2
    + (Z metric * channel_error eLUT lookups entry cmask index 2)\<^sup>2
    + (W metric * channel_error eLUT lookups entry cmask index 3)\<^sup>2"
  by (simp add: slot_error_def GetO_def)

lemma slot_error_nonneg: "0 \<le> slot_error eLUT metric lookups entry cmask index"
  by (simp add: slot_error_def)

lemma keep_keep [simp]:
  "keep q setn AxFF s j (keep q setn AxFF s' i fit) = keep q setn AxFF s j fit"
  by (simp add: keep_def)

lemma m_entry_keep [simp]: "m_entry (keep q setn AxFF s j fit) = m_entry fit"
  by (simp add: keep_def)

lemma index_loop_step:
  assumes "tables_present lookups cmask"
  shows "index_loop k eLUT setn metric q lookups cmask AxFF index b fit =
     (if index < k then
        (let error = slot_error eLUT metric lookups (m_entry fit setn) cmask index
         in if error < b then
              (let fit' = keep q setn AxFF (slot_sources lookups (m_entry fit setn) cmask index) index fit
               in if \<not> (error > 0) then Inr (error, fit')
                  else index_loop k eLUT setn metric q lookups cmask AxFF (index + 1) error fit')
            else index_loop k eLUT setn metric q lookups cmask AxFF (index + 1) b fit)
      else Inr (b, fit))"
  apply (subst index_loop.simps)
  apply (simp only: channel_loop_eq [OF assms])
  apply (simp add: Scr4_LengthSquared slot_error_lanes Let_def)
  done

lemma index_loop_spec:
  assumes tp: "tables_present lookups cmask"
  shows "m_entry fit setn = entry \<Longrightarrow>
    \<exists>m fit'. index_loop k eLUT setn metric q lookups cmask AxFF index b fit = Inr (m, fit')
      \<and> ((\<not> (\<exists>i. index \<le> i \<and> i < k \<and> slot_error eLUT metric lookups entry cmask i < b)
            \<and> m = b \<and> fit' = fit)
         \<or> (\<exists>j. index \<le> j \<and> j < k
              \<and> m = slot_error eLUT metric lookups entry cmask j
              \<and> m < b
              \<and> (\<forall>i. index \<le> i \<and> i < k \<longrightarrow> m \<le> slot_error eLUT metric lookups entry cmask i)
              \<and> (\<forall>i. index \<le> i \<and> i < j \<longrightarrow> m < slot_error eLUT metric lookups entry cmask i)
              \<and> fit' = keep q setn AxFF (slot_sources lookups entry cmask j) j fit))"
proof (induction n \<equiv> "k - index" arbitrary: index b fit)
  case 0
  then show ?case
    by (subst index_loop_step [OF tp]) auto
next
  case (Suc n)
  define E where "E = slot_error eLUT metric lookups entry cmask"
  define S where "S = slot_sources lookups entry cmask"
  define loop where "loop = index_loop k eLUT setn metric q lookups cmask AxFF"
  have lt: "index < k" and n: "n = k - (index + 1)" using Suc.hyps(2) by auto
  have nonneg: "0 \<le> E i" for i by (simp add: E_def slot_error_nonneg)
  have range: "index \<le> i \<longleftrightarrow> i = index \<or> index + 1 \<le> i" for i by auto
  have IH: "\<exists>m fit'. loop (index + 1) b' f = Inr (m, fit')
      \<and> ((\<not> (\<exists>i. index + 1 \<le> i \<and> i < k \<and> E i < b') \<and> m = b' \<and> fit' = f)
         \<or> (\<exists>j. index + 1 \<le> j \<and> j < k \<and> m = E j \<and> m < b'
              \<and> (\<forall>i. index + 1 \<le> i \<and> i < k \<longrightarrow> m \<le> E i)
              \<and> (\<forall>i. index + 1 \<le> i \<and> i < j \<longrightarrow> m < E i)
              \<and> fit' = keep q setn AxFF (S j) j f))"
    if "m_entry f setn = entry" for b' f
    using Suc.hyps(1) [OF n that, of b'] by (simp add: E_def S_def loop_def)
  have goal: "\<exists>m fit'. loop index b fit = Inr (m, fit')
      \<and> ((\<not> (\<exists>i. index \<le> i \<and> i < k \<and> E i < b) \<and> m = b \<and> fit' = fit)
         \<or> (\<exists>j. index \<le> j \<and> j < k \<and> m = E j \<and> m < b
              \<and> (\<forall>i. index \<le> i \<and> i < k \<longrightarrow> m \<le> E i)
              \<and> (\<forall>i. index \<le> i \<and> i < j \<longrightarrow> m < E i)
              \<and> fit' = keep q setn AxFF (S j) j fit))"
  proof (cases "E index < b")
    case False
    have step: "loop index b fit = loop (index + 1) b fit"
      unfolding loop_def using lt False Suc.prems
      by (subst index_loop_step [OF tp]) (simp add: E_def)
    from IH [OF Suc.prems, of b] obtain m fit' where
      r: "loop (index + 1) b fit = Inr (m, fit')"
      and d: "(\<not> (\<exists>i. index + 1 \<le> i \<and> i < k \<and> E i < b) \<and> m = b \<and> fit' = fit)
         \<or> (\<exists>j. index + 1 \<le> j \<and> j < k \<and> m = E j \<and> m < b
              \<and> (\<forall>i. index + 1 \<le> i \<and> i < k \<longrightarrow> m \<le> E i)
              \<and> (\<forall>i. index + 1 \<le> i \<and> i < j \<longrightarrow> m < E i)
              \<and> fit' = keep q setn AxFF (S j) j fit)"
      by blast
    from d show ?thesis
    proof
      assume a: "\<not> (\<exists>i. index + 1 \<le> i \<and> i < k \<and> E i < b) \<and> m = b \<and> fit' = fit"
      then have "\<not> (\<exists>i. index \<le> i \<and> i < k \<and> E i < b)"
        using False range by metis
      with a step r show ?thesis by auto
    next
      assume "\<exists>j. index + 1 \<le> j \<and> j < k \<and> m = E j \<and> m < b
              \<and> (\<forall>i. index + 1 \<le> i \<and> i < k \<longrightarrow> m \<le> E i)
              \<and> (\<forall>i. index + 1 \<le> i \<and> i < j \<longrightarrow> m < E i)
              \<and> fit' = keep q setn AxFF (S j) j fit"
      then obtain j where j: "index + 1 \<le> j" "j < k" "m = E j" "m < b"
        "\<forall>i. index + 1 \<le> i \<and> i < k \<longrightarrow> m \<le> E i"
        "\<forall>i. index + 1 \<le> i \<and> i < j \<longrightarrow> m < E i"
        "fit' = keep q setn AxFF (S j) j fit"
        by blast
      have m_lt: "m < E index" using j(4) False by simp
      have "index \<le> j" using j(1) by simp
      moreover have "\<forall>i. index \<le> i \<and> i < k \<longrightarrow> m \<le> E i"
        using j(5) m_lt range by (metis less_imp_le)
      moreover have "\<forall>i. index \<le> i \<and> i < j \<longrightarrow> m < E i"
        using j(6) m_lt range by metis
      ultimately show ?thesis
        using step r j(2,3,4,7) by auto
    qed
  next
    case True
    define fit1 where "fit1 = keep q setn AxFF (S index) index fit"
    have e1: "m_entry fit1 setn = entry" using Suc.prems by (simp add: fit1_def)
    show ?thesis
    proof (cases "0 < E index")
      case False
      have step: "loop index b fit = Inr (E index, fit1)"
        unfolding loop_def fit1_def using lt True False Suc.prems
        by (subst index_loop_step [OF tp]) (simp add: E_def S_def Let_def)
      have zero: "E index \<le> E i" for i
        using False nonneg [of i] by simp
      have "index \<le> index \<and> index < k \<and> E index = E index \<and> E index < b
          \<and> (\<forall>i. index \<le> i \<and> i < k \<longrightarrow> E index \<le> E i)
          \<and> (\<forall>i. index \<le> i \<and> i < index \<longrightarrow> E index < E i)
          \<and> fit1 = keep q setn AxFF (S index) index fit"
        using lt True zero by (simp add: fit1_def)
      then have "\<exists>j. index \<le> j \<and> j < k \<and> E index = E j \<and> E index < b
          \<and> (\<forall>i. index \<le> i \<and> i < k \<longrightarrow> E index \<le> E i)
          \<and> (\<forall>i. index \<le> i \<and> i < j \<longrightarrow> E index < E i)
          \<and> fit1 = keep q setn AxFF (S j) j fit"
        by (intro exI [of _ index]) auto
      then show ?thesis using step by blast
    next
      case pos: True
      have step: "loop index b fit = loop (index + 1) (E index) fit1"
        unfolding loop_def fit1_def using lt True pos Suc.prems
        by (subst index_loop_step [OF tp]) (simp add: E_def S_def Let_def)
      from IH [OF e1, of "E index"] obtain m fit' where
        r: "loop (index + 1) (E index) fit1 = Inr (m, fit')"
        and d: "(\<not> (\<exists>i. index + 1 \<le> i \<and> i < k \<and> E i < E index) \<and> m = E index \<and> fit' = fit1)
           \<or> (\<exists>j. index + 1 \<le> j \<and> j < k \<and> m = E j \<and> m < E index
                \<and> (\<forall>i. index + 1 \<le> i \<and> i < k \<longrightarrow> m \<le> E i)
                \<and> (\<forall>i. index + 1 \<le> i \<and> i < j \<longrightarrow> m < E i)
                \<and> fit' = keep q setn AxFF (S j) j fit1)"
        by blast
      from d show ?thesis
      proof
        assume a: "\<not> (\<exists>i. index + 1 \<le> i \<and> i < k \<and> E i < E index) \<and> m = E index \<and> fit' = fit1"
        then have "\<forall>i. index \<le> i \<and> i < k \<longrightarrow> E index \<le> E i"
          using range by (metis not_less order_refl)
        then have "index \<le> index \<and> index < k \<and> m = E index \<and> m < b
            \<and> (\<forall>i. index \<le> i \<and> i < k \<longrightarrow> m \<le> E i)
            \<and> (\<forall>i. index \<le> i \<and> i < index \<longrightarrow> m < E i)
            \<and> fit' = keep q setn AxFF (S index) index fit"
          using a lt True by (simp add: fit1_def)
        then have "\<exists>j. index \<le> j \<and> j < k \<and> m = E j \<and> m < b
            \<and> (\<forall>i. index \<le> i \<and> i < k \<longrightarrow> m \<le> E i)
            \<and> (\<forall>i. index \<le> i \<and> i < j \<longrightarrow> m < E i)
            \<and> fit' = keep q setn AxFF (S j) j fit"
          by (intro exI [of _ index]) auto
        moreover have "loop index b fit = Inr (m, fit')" using step r by simp
        ultimately show ?thesis by blast
      next
        assume "\<exists>j. index + 1 \<le> j \<and> j < k \<and> m = E j \<and> m < E index
                \<and> (\<forall>i. index + 1 \<le> i \<and> i < k \<longrightarrow> m \<le> E i)
                \<and> (\<forall>i. index + 1 \<le> i \<and> i < j \<longrightarrow> m < E i)
                \<and> fit' = keep q setn AxFF (S j) j fit1"
        then obtain j where j: "index + 1 \<le> j" "j < k" "m = E j" "m < E index"
          "\<forall>i. index + 1 \<le> i \<and> i < k \<longrightarrow> m \<le> E i"
          "\<forall>i. index + 1 \<le> i \<and> i < j \<longrightarrow> m < E i"
          "fit' = keep q setn AxFF (S j) j fit1"
          by blast
        have "index \<le> j" using j(1) by simp
        moreover have "m < b" using j(4) True by simp
        moreover have "\<forall>i. index \<le> i \<and> i < k \<longrightarrow> m \<le> E i"
          using j(5) j(4) range by (metis less_imp_le)
        moreover have "\<forall>i. index \<le> i \<and> i < j \<longrightarrow> m < E i"
          using j(6) j(4) range by metis
        moreover have "fit' = keep q setn AxFF (S j) j fit"
          using j(7) by (simp add: fit1_def)
        ultimately show ?thesis
          using step r j(2,3) by auto
      qed
    qed
  qed
  then show ?case by (simp add: E_def S_def loop_def)
qed

lemma keep_flags:
  "keep q setn AxFF s j (fit\<lparr>m_flags := f\<rparr>) = (keep q setn AxFF s j fit)\<lparr>m_flags := f\<rparr>"
  by (simp add: keep_def)

lemma index_loop_flags:
  "index_loop k eLUT setn metric q lookups cmask AxFF index b (fit\<lparr>m_flags := f\<rparr>)
    = map_sum id (\<lambda>(s, g). (s, g\<lparr>m_flags := f\<rparr>))
        (index_loop k eLUT setn metric q lookups cmask AxFF index b fit)"
proof (induction n \<equiv> "k - index" arbitrary: index b fit)
  case 0
  then show ?case
    by (subst index_loop.simps, subst (2) index_loop.simps) simp
next
  case (Suc n)
  define loop where "loop = index_loop k eLUT setn metric q lookups cmask AxFF"
  have lt: "index < k" and n: "n = k - (index + 1)" using Suc.hyps(2) by auto
  note IH = Suc.hyps(1) [OF n, folded loop_def]
  show ?case
    unfolding loop_def [symmetric]
  proof (cases "channel_loop eLUT lookups (m_entry fit setn) cmask index [0, 1, 2, 3]
                (replicate 4 None, Vec4_splat 0)")
    case (Inl e)
    then have "loop index b fit = Inl e" "loop index b (fit\<lparr>m_flags := f\<rparr>) = Inl e"
      unfolding loop_def using lt
      by (subst index_loop.simps, simp)+
    then show "loop index b (fit\<lparr>m_flags := f\<rparr>)
        = map_sum id (\<lambda>(s, g). (s, g\<lparr>m_flags := f\<rparr>)) (loop index b fit)"
      by simp
  next
    case (Inr sc)
    obtain S C where sc: "sc = (S, C)" by (cases sc)
    define e where "e = Scr4_of (LengthSquared (Vec4_mul metric C))"
    have step: "loop index b g =
        (if e < b then
           (if \<not> (e > 0) then Inr (e, keep q setn AxFF S index g)
            else loop (index + 1) e (keep q setn AxFF S index g))
         else loop (index + 1) b g)"
      if "m_entry g setn = m_entry fit setn" for g
      unfolding loop_def using lt Inr sc that
      by (subst index_loop.simps) (simp add: Let_def e_def)
    show "loop index b (fit\<lparr>m_flags := f\<rparr>)
        = map_sum id (\<lambda>(s, g). (s, g\<lparr>m_flags := f\<rparr>)) (loop index b fit)"
      using step [of fit] step [of "fit\<lparr>m_flags := f\<rparr>"]
        IH [of b fit] IH [of e "keep q setn AxFF S index fit"]
      by (simp add: keep_flags)
  qed
qed

lemma index_loop_deterministic:
  "m_entry f1 setn = m_entry f2 setn \<Longrightarrow>
   (\<exists>e. index_loop k eLUT setn metric q lookups cmask AxFF index b f1 = Inl e
       \<and> index_loop k eLUT setn metric q lookups cmask AxFF index b f2 = Inl e)
   \<or> (index_loop k eLUT setn metric q lookups cmask AxFF index b f1 = Inr (b, f1)
       \<and> index_loop k eLUT setn metric q lookups cmask AxFF index b f2 = Inr (b, f2))
   \<or> (\<exists>m g1 g2. index_loop k eLUT setn metric q lookups cmask AxFF index b f1 = Inr (m, g1)
       \<and> index_loop k eLUT setn metric q lookups cmask AxFF index b f2 = Inr (m, g2)
       \<and> m < b \<and> m_index g1 = m_index g2 \<and> m_start g1 setn = m_start g2 setn
       \<and> m_end g1 setn = m_end g2 setn
       \<and> m_entry g1 = m_entry f1 \<and> m_entry g2 = m_entry f2)"
proof (induction n \<equiv> "k - index" arbitrary: index b f1 f2)
  case 0
  then show ?case
    by (subst index_loop.simps, subst (2) index_loop.simps) simp
next
  case (Suc n)
  define loop where "loop = index_loop k eLUT setn metric q lookups cmask AxFF"
  have lt: "index < k" and n: "n = k - (index + 1)" using Suc.hyps(2) by auto
  note IH = Suc.hyps(1) [OF n, folded loop_def]
  show ?case
    unfolding loop_def [symmetric]
  proof (cases "channel_loop eLUT lookups (m_entry f1 setn) cmask index [0, 1, 2, 3]
                (replicate 4 None, Vec4_splat 0)")
    case (Inl e)
    then have "loop index b f1 = Inl e" "loop index b f2 = Inl e"
      unfolding loop_def using lt Suc.prems
      by (subst index_loop.simps, simp)+
    then show "(\<exists>e. loop index b f1 = Inl e \<and> loop index b f2 = Inl e)
      \<or> (loop index b f1 = Inr (b, f1) \<and> loop index b f2 = Inr (b, f2))
      \<or> (\<exists>m g1 g2. loop index b f1 = Inr (m, g1) \<and> loop index b f2 = Inr (m, g2)
       \<and> m < b \<and> m_index g1 = m_index g2 \<and> m_start g1 setn = m_start g2 setn
       \<and> m_end g1 setn = m_end g2 setn
       \<and> m_entry g1 = m_entry f1 \<and> m_entry g2 = m_entry f2)" by simp
  next
    case (Inr sc)
    obtain S C where sc: "sc = (S, C)" by (cases sc)
    define e where "e = Scr4_of (LengthSquared (Vec4_mul metric C))"
    have step: "loop index b f =
        (if e < b then
           (if \<not> (e > 0) then Inr (e, keep q setn AxFF S index f)
            else loop (index + 1) e (keep q setn AxFF S index f))
         else loop (index + 1) b f)"
      if "m_entry f setn = m_entry f1 setn" for f
      unfolding loop_def using lt Inr sc that
      by (subst index_loop.simps) (simp add: Let_def e_def)
    show "(\<exists>e. loop index b f1 = Inl e \<and> loop index b f2 = Inl e)
      \<or> (loop index b f1 = Inr (b, f1) \<and> loop index b f2 = Inr (b, f2))
      \<or> (\<exists>m g1 g2. loop index b f1 = Inr (m, g1) \<and> loop index b f2 = Inr (m, g2)
       \<and> m < b \<and> m_index g1 = m_index g2 \<and> m_start g1 setn = m_start g2 setn
       \<and> m_end g1 setn = m_end g2 setn
       \<and> m_entry g1 = m_entry f1 \<and> m_entry g2 = m_entry f2)"
    proof (cases "e < b")
      case False
      then show ?thesis
        using step [of f1] step [of f2] Suc.prems IH [OF Suc.prems, of b] by simp
    next
      case True
      define g1 where "g1 = keep q setn AxFF S index f1"
      define g2 where "g2 = keep q setn AxFF S index f2"
      have k: "m_index g1 = m_index g2" "m_start g1 setn = m_start g2 setn"
        "m_end g1 setn = m_end g2 setn" "m_entry g1 = m_entry f1" "m_entry g2 = m_entry f2"
        by (simp_all add: g1_def g2_def keep_def)
      have ee: "m_entry g1 setn = m_entry g2 setn" using k Suc.prems by simp
      show ?thesis
      proof (cases "e > 0")
        case False
        then show ?thesis
          using step [of f1] step [of f2] Suc.prems True k
          by (simp add: g1_def g2_def)
      next
        case pos: True
        have s1: "loop index b f1 = loop (index + 1) e g1"
          and s2: "loop index b f2 = loop (index + 1) e g2"
          using step [of f1] step [of f2] Suc.prems True pos by (simp_all add: g1_def g2_def)
        from IH [OF ee, of e] show ?thesis
          unfolding s1 s2 using True k by (elim disjE exE) auto
      qed
    qed
  qed
qed

lemma channel_loop_failure:
  "channel_loop eLUT lookups entry cmask index chans acc = Inl e \<Longrightarrow> e = NullPointer"
  by (induction chans arbitrary: acc) (auto simp: Let_def split: if_splits option.splits)

lemma channel_loop_update:
  "\<not> bit cmask c \<Longrightarrow>
   channel_loop eLUT (lookups(c := t)) entry cmask index chans acc
     = channel_loop eLUT lookups entry cmask index chans acc"
  by (induction chans arbitrary: acc) (auto simp: Let_def enabled_bit split: option.splits)

lemma channel_loop_keeps:
  "channel_loop eLUT lookups entry cmask index chans (S, C) = Inr (S', C') \<Longrightarrow>
   \<not> bit cmask c \<Longrightarrow> c < 4 \<Longrightarrow> \<forall>ch\<in>set chans. ch < 4 \<Longrightarrow>
   S' ! c = S ! c \<and> GetO C' c = GetO C c \<and> length S' = length S"
proof (induction chans arbitrary: S C)
  case Nil
  then show ?case by simp
next
  case (Cons ch chans)
  show ?case
  proof (cases "bit cmask ch")
    case False
    then have "channel_loop eLUT lookups entry cmask index chans (S, C) = Inr (S', C')"
      using Cons.prems(1) by (simp add: enabled_bit)
    then show ?thesis using Cons.IH Cons.prems(2,3,4) by auto
  next
    case True
    then have ne: "ch \<noteq> c" using Cons.prems(2) by auto
    from True Cons.prems(1) obtain lookup where
      l: "lookups ch = Some lookup"
      and r: "channel_loop eLUT lookups entry cmask index chans
          (S[ch := Some (lookup (unat (entry ! ch)) index)],
           SetO C ch (eLUT ! unat (src_error (lookup (unat (entry ! ch)) index)))) = Inr (S', C')"
      by (auto simp: enabled_bit Let_def split: option.splits)
    have "S' ! c = (S[ch := Some (lookup (unat (entry ! ch)) index)]) ! c
        \<and> GetO C' c = GetO (SetO C ch (eLUT ! unat (src_error (lookup (unat (entry ! ch)) index)))) c
        \<and> length S' = length (S[ch := Some (lookup (unat (entry ! ch)) index)])"
      using Cons.IH [OF r] Cons.prems(2,3,4) by auto
    moreover have "GetO (SetO C ch x) c = GetO C c" for x
      using ne Cons.prems(3,4) by (auto simp: GetO_def SetO_def)
    ultimately show ?thesis using ne by simp
  qed
qed


lemma channel_loop_masked:
  assumes "channel_loop eLUT lookups entry cmask index [0, 1, 2, 3]
             (replicate 4 None, Vec4_splat 0) = Inr (S, C)"
    and "c < 4" and "\<not> bit cmask c"
  shows "S ! c = None \<and> GetO C c = 0"
  using channel_loop_keeps [OF assms(1) assms(3) assms(2)] assms(2)
  by (simp add: GetO_def Vec4_splat_def)

lemma index_loop_update:
  assumes "\<not> bit cmask c"
  shows "index_loop k eLUT setn metric q (lookups(c := t)) cmask AxFF index b fit
    = index_loop k eLUT setn metric q lookups cmask AxFF index b fit"
proof (induction n \<equiv> "k - index" arbitrary: index b fit)
  case 0
  then show ?case
    by (subst index_loop.simps, subst (2) index_loop.simps) simp
next
  case (Suc n)
  have n: "n = k - (index + 1)" using Suc.hyps(2) by auto
  have IH: "index_loop k eLUT setn metric q (lookups(c := t)) cmask AxFF (index + 1) b' f
    = index_loop k eLUT setn metric q lookups cmask AxFF (index + 1) b' f" for b' f
    by (rule Suc.hyps(1) [OF n])
  note L = index_loop.simps [of k eLUT setn metric q "lookups(c := t)" cmask AxFF index b fit]
  note R = index_loop.simps [of k eLUT setn metric q lookups cmask AxFF index b fit]
  show ?case
    apply (subst L)
    apply (subst R)
    apply (simp only: channel_loop_update [OF assms] IH)
    done
qed

lemma index_loop_result:
  "index_loop k eLUT setn metric q lookups cmask AxFF index b fit = Inl NullPointer
   \<or> index_loop k eLUT setn metric q lookups cmask AxFF index b fit = Inr (b, fit)
   \<or> (\<exists>m j S C. index_loop k eLUT setn metric q lookups cmask AxFF index b fit
          = Inr (m, keep q setn AxFF S j fit)
        \<and> m < b \<and> index \<le> j \<and> j < k
        \<and> channel_loop eLUT lookups (m_entry fit setn) cmask j [0, 1, 2, 3]
             (replicate 4 None, Vec4_splat 0) = Inr (S, C))"
proof (induction n \<equiv> "k - index" arbitrary: index b fit)
  case 0
  then show ?case
    by (subst (2) index_loop.simps) simp
next
  case (Suc n)
  define loop where "loop = index_loop k eLUT setn metric q lookups cmask AxFF"
  define slot where "slot = (\<lambda>j. channel_loop eLUT lookups (m_entry fit setn) cmask j
      [0, 1, 2, 3] (replicate 4 None, Vec4_splat 0))"
  have lt: "index < k" and n: "n = k - (index + 1)" using Suc.hyps(2) by auto
  have IH: "loop (index + 1) b' f = Inl NullPointer
      \<or> loop (index + 1) b' f = Inr (b', f)
      \<or> (\<exists>m j S C. loop (index + 1) b' f = Inr (m, keep q setn AxFF S j f)
            \<and> m < b' \<and> index + 1 \<le> j \<and> j < k \<and> slot j = Inr (S, C))"
    if "m_entry f setn = m_entry fit setn" for b' f
    using Suc.hyps(1) [OF n, of b' f] that by (simp add: loop_def slot_def)
  have goal: "loop index b fit = Inl NullPointer
      \<or> loop index b fit = Inr (b, fit)
      \<or> (\<exists>m j S C. loop index b fit = Inr (m, keep q setn AxFF S j fit)
            \<and> m < b \<and> index \<le> j \<and> j < k \<and> slot j = Inr (S, C))"
  proof (cases "slot index")
    case (Inl e)
    then have "e = NullPointer" unfolding slot_def by (rule channel_loop_failure)
    then have "loop index b fit = Inl NullPointer"
      unfolding loop_def using lt Inl
      by (subst index_loop.simps) (simp add: slot_def)
    then show ?thesis by simp
  next
    case (Inr sc)
    obtain S C where sc: "sc = (S, C)" by (cases sc)
    define e where "e = Scr4_of (LengthSquared (Vec4_mul metric C))"
    define fit1 where "fit1 = keep q setn AxFF S index fit"
    have step: "loop index b fit =
        (if e < b then (if \<not> (e > 0) then Inr (e, fit1) else loop (index + 1) e fit1)
         else loop (index + 1) b fit)"
      unfolding loop_def using lt Inr sc
      by (subst index_loop.simps) (simp add: Let_def e_def slot_def fit1_def)
    have here: "slot index = Inr (S, C)" using Inr sc by simp
    show ?thesis
    proof (cases "e < b")
      case False
      then have s: "loop index b fit = loop (index + 1) b fit" using step by simp
      from IH [OF refl, of b] show ?thesis
        unfolding s by (elim disjE exE conjE) (auto intro: Suc_leD)
    next
      case True
      show ?thesis
      proof (cases "e > 0")
        case False
        then have "loop index b fit = Inr (e, keep q setn AxFF S index fit)"
          using step True by (simp add: fit1_def)
        then show ?thesis using True lt here by blast
      next
        case pos: True
        then have s: "loop index b fit = loop (index + 1) e fit1" using step True by simp
        have e1: "m_entry fit1 setn = m_entry fit setn" by (simp add: fit1_def)
        from IH [OF e1, of e] show ?thesis
        proof (elim disjE exE conjE)
          assume "loop (index + 1) e fit1 = Inl NullPointer"
          then show ?thesis using s by simp
        next
          assume "loop (index + 1) e fit1 = Inr (e, fit1)"
          then have "loop index b fit = Inr (e, keep q setn AxFF S index fit)"
            using s by (simp add: fit1_def)
          then show ?thesis using True lt here by blast
        next
          fix m j S' C'
          assume a: "loop (index + 1) e fit1 = Inr (m, keep q setn AxFF S' j fit1)"
            "m < e" "index + 1 \<le> j" "j < k" "slot j = Inr (S', C')"
          then have "loop index b fit = Inr (m, keep q setn AxFF S' j fit)"
            using s by (simp add: fit1_def)
          moreover have "m < b" using a(2) True by simp
          moreover have "index \<le> j" using a(3) by simp
          ultimately show ?thesis using a(4,5) by blast
        qed
      qed
    qed
  qed
  then show ?case by (simp add: loop_def slot_def)
qed







lemma body_entry:
  "ComputeEndPoints_body eLUT k fit setn metric q lookups cmask
    = index_loop k eLUT setn metric q lookups cmask (A (gridinv q) - 1) 0 FLT_MAX
        (fit\<lparr>m_entry := (m_entry fit)(setn := packed_entry fit setn)\<rparr>)"
  by (simp add: ComputeEndPoints_body_def packed_entry_def Let_def)







lemma ComputeEndPointsN_result:
  assumes "tables_present lookups cmask"
  shows "\<exists>m g. ComputeEndPointsN k fit setn metric q lookups cmask = Inr (m, g)"
proof -
  from index_loop_spec [OF assms refl,
      where fit = "fit\<lparr>m_entry := (m_entry fit)(setn := packed_entry fit setn)\<rparr>"
        and setn = setn and k = k and eLUT = "ComputeGammaLUT False" and metric = metric
        and q = q and AxFF = "A (gridinv q) - 1" and index = 0 and b = FLT_MAX]
  obtain m g where "index_loop k (ComputeGammaLUT False) setn metric q lookups cmask
      (A (gridinv q) - 1) 0 FLT_MAX
      (fit\<lparr>m_entry := (m_entry fit)(setn := packed_entry fit setn)\<rparr>) = Inr (m, g)"
    by (elim exE conjE) (erule that)
  then show ?thesis
    unfolding ComputeEndPointsN_def body_entry by (intro exI)
qed

lemma ComputeEndPointsN_failure:
  assumes "ComputeEndPointsN k fit setn metric q lookups cmask = Inl e"
  shows "e = NullPointer"
proof -
  define fit0 where "fit0 = fit\<lparr>m_entry := (m_entry fit)(setn := packed_entry fit setn)\<rparr>"
  have r: "index_loop k (ComputeGammaLUT False) setn metric q lookups cmask (A (gridinv q) - 1)
      0 FLT_MAX fit0 = Inl e"
    using assms by (simp add: ComputeEndPointsN_def body_entry fit0_def)
  from index_loop_result
    [of k "ComputeGammaLUT False" setn metric q lookups cmask "A (gridinv q) - 1" 0 FLT_MAX fit0]
  show ?thesis
    unfolding r by (elim disjE exE conjE) simp_all
qed




end
